theory Spec2Isabelle
  imports Main
begin

section \<open>DiffWithCommand.execute (src/commands/diffWith.ts)\<close>

text \<open>
  The command copies its argument object, resolves the two revisions, checks that the
  right file still exists, asks for the two versioned uris, derives the two label
  suffixes and the title, and hands everything to the built-in diff command.

  JavaScript values that can be \<open>undefined\<close> when the code runs are options
  (\<open>None\<close> is \<open>undefined\<close>). Objects live in a store indexed by addresses, since the
  code mutates the copies it makes of the caller's objects. The operations of
  \<open>Container.git\<close>, \<open>GitService\<close>, \<open>GitUri\<close>, \<open>path\<close> and \<open>vscode\<close> are not part of
  this file of the repository: they are the fields of an environment record. Calls of
  the asynchronous ones are written to a trace, once when invoked and once when settled.
\<close>

subsection \<open>Data\<close>

type_synonym addr = nat

text \<open>A \<open>vscode.Uri\<close>. The command reads only its \<open>fsPath\<close>.\<close>

record Uri =
  scheme :: string
  fsPath :: string
  query :: string

record SelectionRange =
  startLine :: int
  startCharacter :: int
  endLine :: int
  endCharacter :: int

text \<open>\<open>interface DiffWithCommandArgsRevision\<close>. The interface declares \<open>sha\<close> and \<open>uri\<close>
  as required, but the copy \<open>{ ...args.lhs }\<close> of an undefined side has neither.\<close>

record DiffWithCommandArgsRevision =
  sha :: "string option"
  uri :: "Uri option"
  title :: "string option"

record TextDocumentShowOptions =
  viewColumn :: "int option"
  preserveFocus :: "bool option"
  preview :: "bool option"
  selection :: "SelectionRange option"

text \<open>\<open>interface DiffWithCommandArgs\<close>; \<open>lhs\<close>, \<open>rhs\<close> and \<open>showOptions\<close> are references.
  The number \<open>line\<close> is an integer here.\<close>

record DiffWithCommandArgs =
  lhs :: "addr option"
  rhs :: "addr option"
  repoPath :: "string option"
  line :: "int option"
  showOptions :: "addr option"

record GitFileStatus =
  status :: string
  fileName :: string

datatype exn = TypeError | Rejected string

datatype call =
    ResolveReference string "string option" "Uri option"
  | GetFileStatusForCommit string string string
  | GetVersionedUri string string "string option"
  | ExecuteDiff Uri Uri "string option" "TextDocumentShowOptions option"

datatype event =
    Invoke call
  | Settle call
  | LoggerError exn string string
  | ShowGenericErrorMessage string

datatype outcome = ReturnedUndefined | ReturnedDiffResult | ReturnedErrorMessage

text \<open>What the command imports. \<open>shortenSha\<close> takes the revision and the \<open>uncommitted\<close>
  entry of its options argument; \<open>executeCommand\<close> is \<open>commands.executeCommand\<close> applied to
  \<open>BuiltInCommands.Diff\<close>, and its last argument is the object \<open>args.showOptions\<close> as it is
  at the call. \<open>leftSettlesFirst\<close> is the order in which the two promises of line 128
  settle, which the code leaves to the collaborator.\<close>

record env =
  deletedOrMissingSha :: string
  ArrowLeftRightLong :: string
  ViewColumnActive :: int
  resolveReference :: "string \<Rightarrow> string option \<Rightarrow> Uri option \<Rightarrow> exn + string option"
  getFileStatusForCommit :: "string \<Rightarrow> string \<Rightarrow> string \<Rightarrow> exn + GitFileStatus option"
  getVersionedUri :: "string \<Rightarrow> string \<Rightarrow> string option \<Rightarrow> exn + Uri option"
  shortenSha :: "string option \<Rightarrow> string option \<Rightarrow> string option"
  isUncommitted :: "string option \<Rightarrow> bool"
  basename :: "string \<Rightarrow> string"
  toRevisionUri :: "string \<Rightarrow> string \<Rightarrow> string \<Rightarrow> Uri"
  newRange :: "int \<Rightarrow> int \<Rightarrow> int \<Rightarrow> int \<Rightarrow> exn + SelectionRange"
  executeCommand :: "Uri \<Rightarrow> Uri \<Rightarrow> string option \<Rightarrow> TextDocumentShowOptions option \<Rightarrow> exn + unit"
  leftSettlesFirst :: bool

text \<open>The caller's heap: three typed object tables and the next unused address.\<close>

record store =
  argsObjs :: "addr \<Rightarrow> DiffWithCommandArgs"
  revObjs :: "addr \<Rightarrow> DiffWithCommandArgsRevision"
  optsObjs :: "addr \<Rightarrow> TextDocumentShowOptions"
  nextAddr :: addr

text \<open>The state of one invocation: the heap, the trace, the exception that left the
  \<open>try\<close> block (if any), and the local variables of \<open>execute\<close>. \<open>lhsAddr\<close>, \<open>rhsAddr\<close> and
  \<open>repo\<close> are \<open>args.lhs\<close>, \<open>args.rhs\<close> and \<open>args.repoPath\<close>, which the guard of line 98
  has found defined and which are not assigned afterwards; \<open>lhsRef\<close> and \<open>rhsRef\<close> are the
  locals \<open>lhs\<close> and \<open>rhs\<close> of line 128; \<open>titleVar\<close> is the local \<open>title\<close>.\<close>

record state =
  argsAt :: "addr \<Rightarrow> DiffWithCommandArgs"
  revAt :: "addr \<Rightarrow> DiffWithCommandArgsRevision"
  optsAt :: "addr \<Rightarrow> TextDocumentShowOptions"
  nextFree :: addr
  trace :: "event list"
  thrown :: "exn option"
  args :: addr
  lhsAddr :: addr
  rhsAddr :: addr
  repo :: string
  lhsSha :: "string option"
  rhsSha :: "string option"
  lhsRef :: "Uri option"
  rhsRef :: "Uri option"
  lhsSuffix :: string
  rhsSuffix :: string
  titleVar :: "string option"

subsection \<open>JavaScript helpers\<close>

definition emptyRevision :: DiffWithCommandArgsRevision where
  "emptyRevision = \<lparr>sha = None, uri = None, title = None\<rparr>"

definition emptyShowOptions :: TextDocumentShowOptions where
  "emptyShowOptions = \<lparr>viewColumn = None, preserveFocus = None, preview = None, selection = None\<rparr>"

definition emptyArgs :: DiffWithCommandArgs where
  "emptyArgs = \<lparr>lhs = None, rhs = None, repoPath = None, line = None, showOptions = None\<rparr>"

text \<open>\<open>x || ''\<close> for a string or undefined \<open>x\<close>.\<close>

definition orEmpty :: "string option \<Rightarrow> string" where
  "orEmpty x = (case x of None \<Rightarrow> [] | Some s \<Rightarrow> s)"

text \<open>\<open>a || b\<close> for two strings or undefined: the empty string is falsy.\<close>

definition orElse :: "string option \<Rightarrow> string option \<Rightarrow> string option" where
  "orElse a b = (case a of None \<Rightarrow> b | Some s \<Rightarrow> if s = [] then b else Some s)"

text \<open>The template \<open>${basename}${suffix ? ` (${suffix})` : ''}\<close>.\<close>

definition label :: "string \<Rightarrow> string \<Rightarrow> string" where
  "label base suffix = base @ (if suffix \<noteq> [] then '' ('' @ suffix @ '')'' else [])"

definition emit :: "event \<Rightarrow> state \<Rightarrow> state" where
  "emit e s = s\<lparr>trace := trace s @ [e]\<rparr>"

definition throw :: "exn \<Rightarrow> state \<Rightarrow> state" where
  "throw e s = s\<lparr>thrown := Some e\<rparr>"

text \<open>Sequencing inside the \<open>try\<close> block: nothing runs after a throw.\<close>

definition andThen :: "(state \<Rightarrow> state) \<Rightarrow> (state \<Rightarrow> state) \<Rightarrow> state \<Rightarrow> state" where
  "andThen f g s = (let s' = f s in if thrown s' = None then g s' else s')"

definition setSha :: "addr \<Rightarrow> string option \<Rightarrow> state \<Rightarrow> state" where
  "setSha a v s = s\<lparr>revAt := (revAt s)(a := (revAt s a)\<lparr>sha := v\<rparr>)\<rparr>"

definition setTitle :: "addr \<Rightarrow> string option \<Rightarrow> state \<Rightarrow> state" where
  "setTitle a v s = s\<lparr>revAt := (revAt s)(a := (revAt s a)\<lparr>title := v\<rparr>)\<rparr>"

definition setLhsSha :: "string option \<Rightarrow> state \<Rightarrow> state" where
  "setLhsSha v s = s\<lparr>lhsSha := v\<rparr>"

definition setRhsSha :: "string option \<Rightarrow> state \<Rightarrow> state" where
  "setRhsSha v s = s\<lparr>rhsSha := v\<rparr>"

definition setRefs :: "Uri option \<Rightarrow> Uri option \<Rightarrow> state \<Rightarrow> state" where
  "setRefs l r s = s\<lparr>lhsRef := l, rhsRef := r\<rparr>"

definition setLhsSuffix :: "string \<Rightarrow> state \<Rightarrow> state" where
  "setLhsSuffix v s = s\<lparr>lhsSuffix := v\<rparr>"

definition setRhsSuffix :: "string \<Rightarrow> state \<Rightarrow> state" where
  "setRhsSuffix v s = s\<lparr>rhsSuffix := v\<rparr>"

definition setTitleVar :: "string option \<Rightarrow> state \<Rightarrow> state" where
  "setTitleVar v s = s\<lparr>titleVar := v\<rparr>"

definition setOpts :: "addr \<Rightarrow> TextDocumentShowOptions \<Rightarrow> state \<Rightarrow> state" where
  "setOpts a v s = s\<lparr>optsAt := (optsAt s)(a := v)\<rparr>"

text \<open>\<open>args.showOptions = {}\<close>: a new object, and the field of the copy of \<open>args\<close>.\<close>

definition newShowOptions :: "state \<Rightarrow> state" where
  "newShowOptions s =
     s\<lparr>optsAt := (optsAt s)(nextFree s := emptyShowOptions),
       argsAt := (argsAt s)(args s := (argsAt s (args s))\<lparr>showOptions := Some (nextFree s)\<rparr>),
       nextFree := Suc (nextFree s)\<rparr>"

text \<open>A property of \<open>args.showOptions\<close> is read or written: a TypeError when it is
  undefined.\<close>

definition withShowOptions :: "(addr \<Rightarrow> state \<Rightarrow> state) \<Rightarrow> state \<Rightarrow> state" where
  "withShowOptions f s =
     (case showOptions (argsAt s (args s)) of
        None \<Rightarrow> throw TypeError s
      | Some p \<Rightarrow> f p s)"

subsection \<open>Lines 91 to 98: the copies and the guard\<close>

text \<open>The default \<open>args = {}\<close> makes a new empty object when the caller passes none. Then
  \<open>{ ...args, lhs: { ...args.lhs }, rhs: { ...args.rhs }, showOptions: { ...args.showOptions } }\<close>
  makes three new objects and a fourth that refers to them; spreading \<open>undefined\<close> gives
  an object without properties.\<close>

definition enter :: "store \<Rightarrow> addr option \<Rightarrow> state" where
  "enter st a =
     (let n = (case a of None \<Rightarrow> Suc (nextAddr st) | Some _ \<Rightarrow> nextAddr st);
          orig = (case a of None \<Rightarrow> emptyArgs | Some p \<Rightarrow> argsObjs st p);
          argsTab = (case a of None \<Rightarrow> (argsObjs st)(nextAddr st := emptyArgs) | Some _ \<Rightarrow> argsObjs st);
          l = (case lhs orig of None \<Rightarrow> emptyRevision | Some p \<Rightarrow> revObjs st p);
          r = (case rhs orig of None \<Rightarrow> emptyRevision | Some p \<Rightarrow> revObjs st p);
          so = (case showOptions orig of None \<Rightarrow> emptyShowOptions | Some p \<Rightarrow> optsObjs st p)
      in \<lparr>argsAt = argsTab(n + 3 := orig\<lparr>lhs := Some n, rhs := Some (n + 1), showOptions := Some (n + 2)\<rparr>),
          revAt = (revObjs st)(n := l, n + 1 := r),
          optsAt = (optsObjs st)(n + 2 := so),
          nextFree = n + 4,
          trace = [],
          thrown = None,
          args = n + 3,
          lhsAddr = 0,
          rhsAddr = 0,
          repo = [],
          lhsSha = None,
          rhsSha = None,
          lhsRef = None,
          rhsRef = None,
          lhsSuffix = [],
          rhsSuffix = [],
          titleVar = None\<rparr>)"

subsection \<open>Lines 101 to 111: resolving the two revisions\<close>

text \<open>\<open>await Promise.all([await resolveReference(lhs), await resolveReference(rhs)])\<close>: the
  elements of the array are evaluated in order and each one is awaited, so the second
  call is made when the first has settled, and not at all when the first is rejected.
  Both fields are assigned when both have been fulfilled.\<close>

definition resolveBoth :: "env \<Rightarrow> state \<Rightarrow> state" where
  "resolveBoth e s0 =
     (let L = revAt s0 (lhsAddr s0);
          R = revAt s0 (rhsAddr s0);
          s = setRhsSha (sha R) (setLhsSha (sha L) s0);
          cl = ResolveReference (repo s) (sha L) (uri L);
          cr = ResolveReference (repo s) (sha R) (uri R)
      in case resolveReference e (repo s) (sha L) (uri L) of
           Inl ex \<Rightarrow> throw ex (emit (Settle cl) (emit (Invoke cl) s))
         | Inr v1 \<Rightarrow>
             (case resolveReference e (repo s) (sha R) (uri R) of
                Inl ex \<Rightarrow>
                  throw ex (emit (Settle cr) (emit (Invoke cr) (emit (Settle cl) (emit (Invoke cl) s))))
              | Inr v2 \<Rightarrow>
                  setSha (rhsAddr s) v2 (setSha (lhsAddr s) v1
                    (emit (Settle cr) (emit (Invoke cr) (emit (Settle cl) (emit (Invoke cl) s)))))))"

definition keepLhsSha :: "env \<Rightarrow> state \<Rightarrow> state" where
  "keepLhsSha e s =
     (if sha (revAt s (lhsAddr s)) \<noteq> Some (deletedOrMissingSha e)
      then setLhsSha (sha (revAt s (lhsAddr s))) s
      else s)"

subsection \<open>Lines 113 to 126: does the right file still exist\<close>

definition classifyRhs :: "env \<Rightarrow> state \<Rightarrow> state" where
  "classifyRhs e s =
     (case sha (revAt s (rhsAddr s)) of
        None \<Rightarrow> s
      | Some v \<Rightarrow>
          if v \<noteq> [] \<and> v \<noteq> deletedOrMissingSha e then
            (case uri (revAt s (rhsAddr s)) of
               None \<Rightarrow> throw TypeError s
             | Some u \<Rightarrow>
                 (let c = GetFileStatusForCommit (repo s) (fsPath u) v;
                      s1 = emit (Settle c) (emit (Invoke c) s)
                  in case getFileStatusForCommit e (repo s) (fsPath u) v of
                       Inl ex \<Rightarrow> throw ex s1
                     | Inr None \<Rightarrow> setRhsSha (Some v) s1
                     | Inr (Some st) \<Rightarrow>
                         if status st = ''D''
                         then setSha (rhsAddr s) (Some (deletedOrMissingSha e)) s1
                         else setRhsSha (Some v) s1))
          else s)"

subsection \<open>Lines 128 to 131: the two versioned uris\<close>

text \<open>\<open>Promise.all([getVersionedUri(lhs), getVersionedUri(rhs)])\<close>: both calls are made
  before either is awaited. Reading \<open>fsPath\<close> of an undefined \<open>uri\<close> throws while the
  arguments are evaluated. The two promises settle in either order; \<open>Promise.all\<close> is
  rejected by the first rejection, and what the other call does after that is not seen
  by \<open>execute\<close>.\<close>

definition acquire :: "env \<Rightarrow> state \<Rightarrow> state" where
  "acquire e s =
     (let L = revAt s (lhsAddr s); R = revAt s (rhsAddr s)
      in case uri L of
           None \<Rightarrow> throw TypeError s
         | Some ul \<Rightarrow>
             (let cl = GetVersionedUri (repo s) (fsPath ul) (sha L);
                  s1 = emit (Invoke cl) s
              in case uri R of
                   None \<Rightarrow> throw TypeError s1
                 | Some ur \<Rightarrow>
                     (let cr = GetVersionedUri (repo s) (fsPath ur) (sha R);
                          s2 = emit (Invoke cr) s1
                      in if leftSettlesFirst e then
                           (case getVersionedUri e (repo s) (fsPath ul) (sha L) of
                              Inl ex \<Rightarrow> throw ex (emit (Settle cl) s2)
                            | Inr l \<Rightarrow>
                                (case getVersionedUri e (repo s) (fsPath ur) (sha R) of
                                   Inl ex \<Rightarrow> throw ex (emit (Settle cr) (emit (Settle cl) s2))
                                 | Inr r \<Rightarrow> setRefs l r (emit (Settle cr) (emit (Settle cl) s2))))
                         else
                           (case getVersionedUri e (repo s) (fsPath ur) (sha R) of
                              Inl ex \<Rightarrow> throw ex (emit (Settle cr) s2)
                            | Inr r \<Rightarrow>
                                (case getVersionedUri e (repo s) (fsPath ul) (sha L) of
                                   Inl ex \<Rightarrow> throw ex (emit (Settle cl) (emit (Settle cr) s2))
                                 | Inr l \<Rightarrow> setRefs l r (emit (Settle cl) (emit (Settle cr) s2)))))))"

subsection \<open>Lines 133 to 158: the two suffixes\<close>

definition deriveRhsSuffix :: "env \<Rightarrow> state \<Rightarrow> state" where
  "deriveRhsSuffix e s =
     (let base = orEmpty (shortenSha e (rhsSha s) (Some ''Working Tree''))
      in if rhsRef s = None then
           (if isUncommitted e (sha (revAt s (rhsAddr s))) then setRhsSuffix ''deleted'' s
            else if length base = 0 \<and> sha (revAt s (rhsAddr s)) = Some (deletedOrMissingSha e)
              then setRhsSuffix ''not in Working Tree'' s
            else setRhsSuffix (''deleted in '' @ base) s)
         else if lhsRef s = None then setRhsSuffix (''added in '' @ base) s
         else setRhsSuffix base s)"

text \<open>The initial value of \<open>lhsSuffix\<close> (line 149).\<close>

definition lhsBase :: "env \<Rightarrow> state \<Rightarrow> string" where
  "lhsBase e s =
     (if sha (revAt s (lhsAddr s)) \<noteq> Some (deletedOrMissingSha e)
      then orEmpty (shortenSha e (lhsSha s) None)
      else [])"

text \<open>\<open>args.rhs.sha.length\<close> is read only when \<open>lhs\<close> is undefined, and throws a TypeError
  when \<open>args.rhs.sha\<close> is undefined.\<close>

definition deriveLhsSuffix :: "env \<Rightarrow> state \<Rightarrow> state" where
  "deriveLhsSuffix e s =
     (let s1 = setLhsSuffix (lhsBase e s) s
      in if lhsRef s = None then
           (case sha (revAt s (rhsAddr s)) of
              None \<Rightarrow> throw TypeError s1
            | Some v \<Rightarrow>
                if length v = 0 then
                  (if rhsRef s \<noteq> None
                   then setRhsSuffix [] (setLhsSuffix (''not in '' @ lhsSuffix s1) s1)
                   else setLhsSuffix (''deleted in '' @ lhsSuffix s1 @ '')'') s1)
                else s1)
         else s1)"

subsection \<open>Lines 160 to 170: the labels and the title\<close>

definition assignLhsTitle :: "env \<Rightarrow> state \<Rightarrow> state" where
  "assignLhsTitle e s =
     (if title (revAt s (lhsAddr s)) = None \<and> (lhsRef s \<noteq> None \<or> length (lhsSuffix s) \<noteq> 0) then
        (case uri (revAt s (lhsAddr s)) of
           None \<Rightarrow> throw TypeError s
         | Some u \<Rightarrow> setTitle (lhsAddr s) (Some (label (basename e (fsPath u)) (lhsSuffix s))) s)
      else s)"

definition assignRhsTitle :: "env \<Rightarrow> state \<Rightarrow> state" where
  "assignRhsTitle e s =
     (if title (revAt s (rhsAddr s)) = None then
        (case uri (revAt s (rhsAddr s)) of
           None \<Rightarrow> throw TypeError s
         | Some u \<Rightarrow> setTitle (rhsAddr s) (Some (label (basename e (fsPath u)) (rhsSuffix s))) s)
      else s)"

definition combineTitle :: "env \<Rightarrow> state \<Rightarrow> state" where
  "combineTitle e s =
     (case (title (revAt s (lhsAddr s)), title (revAt s (rhsAddr s))) of
        (Some lt, Some rt) \<Rightarrow> setTitleVar (Some (lt @ '' '' @ ArrowLeftRightLong e @ '' '' @ rt)) s
      | (lt, rt) \<Rightarrow> setTitleVar (orElse lt rt) s)"

subsection \<open>Lines 172 to 182: the display options\<close>

definition ensureShowOptions :: "state \<Rightarrow> state" where
  "ensureShowOptions s =
     (if showOptions (argsAt s (args s)) = None then newShowOptions s else s)"

definition defaultViewColumn :: "env \<Rightarrow> state \<Rightarrow> state" where
  "defaultViewColumn e =
     withShowOptions (\<lambda>p s.
       if viewColumn (optsAt s p) = None
       then setOpts p ((optsAt s p)\<lparr>viewColumn := Some (ViewColumnActive e)\<rparr>) s
       else s)"

definition selectLine :: "env \<Rightarrow> state \<Rightarrow> state" where
  "selectLine e s =
     (case line (argsAt s (args s)) of
        None \<Rightarrow> s
      | Some n \<Rightarrow>
          if n \<noteq> 0 then
            (case newRange e n 0 n 0 of
               Inl ex \<Rightarrow> throw ex s
             | Inr rg \<Rightarrow> withShowOptions (\<lambda>p s'. setOpts p ((optsAt s' p)\<lparr>selection := Some rg\<rparr>) s') s)
          else s)"

subsection \<open>Lines 184 to 194: the call of the diff command\<close>

text \<open>\<open>ref === undefined ? GitUri.toRevisionUri(GitService.deletedOrMissingSha,
  side.uri.fsPath, args.repoPath) : ref\<close>; \<open>None\<close> is the TypeError of reading \<open>fsPath\<close> of
  an undefined \<open>uri\<close>.\<close>

definition orPlaceholder :: "env \<Rightarrow> state \<Rightarrow> Uri option \<Rightarrow> addr \<Rightarrow> Uri option" where
  "orPlaceholder e s ref side =
     (case ref of
        Some u \<Rightarrow> Some u
      | None \<Rightarrow>
          (case uri (revAt s side) of
             None \<Rightarrow> None
           | Some u \<Rightarrow> Some (toRevisionUri e (deletedOrMissingSha e) (fsPath u) (repo s))))"

definition delegate :: "env \<Rightarrow> state \<Rightarrow> state" where
  "delegate e s =
     (case orPlaceholder e s (lhsRef s) (lhsAddr s) of
        None \<Rightarrow> throw TypeError s
      | Some l \<Rightarrow>
          (case orPlaceholder e s (rhsRef s) (rhsAddr s) of
             None \<Rightarrow> throw TypeError s
           | Some r \<Rightarrow>
               (let so = map_option (optsAt s) (showOptions (argsAt s (args s)));
                    c = ExecuteDiff l r (titleVar s) so;
                    s1 = emit (Settle c) (emit (Invoke c) s)
                in case executeCommand e l r (titleVar s) so of
                     Inl ex \<Rightarrow> throw ex s1
                   | Inr _ \<Rightarrow> s1)))"

subsection \<open>The \<open>try\<close> block, the \<open>catch\<close> clause and \<open>execute\<close>\<close>

definition afterAcquire :: "env \<Rightarrow> state \<Rightarrow> state" where
  "afterAcquire e = andThen (resolveBoth e) (andThen (keepLhsSha e) (andThen (classifyRhs e) (acquire e)))"

definition afterSuffixes :: "env \<Rightarrow> state \<Rightarrow> state" where
  "afterSuffixes e = andThen (afterAcquire e) (andThen (deriveRhsSuffix e) (deriveLhsSuffix e))"

definition afterTitle :: "env \<Rightarrow> state \<Rightarrow> state" where
  "afterTitle e =
     andThen (afterSuffixes e) (andThen (assignLhsTitle e) (andThen (assignRhsTitle e) (combineTitle e)))"

definition afterOptions :: "env \<Rightarrow> state \<Rightarrow> state" where
  "afterOptions e =
     andThen (afterTitle e) (andThen ensureShowOptions (andThen (defaultViewColumn e) (selectLine e)))"

definition tryBlock :: "env \<Rightarrow> state \<Rightarrow> state" where
  "tryBlock e = andThen (afterOptions e) (delegate e)"

definition catchClause :: "state \<Rightarrow> outcome \<times> state" where
  "catchClause s =
     (case thrown s of
        None \<Rightarrow> (ReturnedDiffResult, s)
      | Some ex \<Rightarrow>
          (ReturnedErrorMessage,
           emit (ShowGenericErrorMessage ''Unable to open compare'')
             (emit (LoggerError ex ''DiffWithCommand'' ''getVersionedFile'') s)))"

text \<open>The state on entry of the \<open>try\<close> block, when the guard of line 98 lets the request
  through.\<close>

definition guarded :: "state \<Rightarrow> state option" where
  "guarded s =
     (case repoPath (argsAt s (args s)) of
        None \<Rightarrow> None
      | Some rp \<Rightarrow>
          (case lhs (argsAt s (args s)) of
             None \<Rightarrow> None
           | Some l \<Rightarrow>
               (case rhs (argsAt s (args s)) of
                  None \<Rightarrow> None
                | Some r \<Rightarrow> Some (s\<lparr>repo := rp, lhsAddr := l, rhsAddr := r\<rparr>))))"

definition execute :: "env \<Rightarrow> store \<Rightarrow> addr option \<Rightarrow> outcome \<times> state" where
  "execute e st a =
     (case guarded (enter st a) of
        None \<Rightarrow> (ReturnedUndefined, enter st a)
      | Some s \<Rightarrow> catchClause (tryBlock e s))"

subsection \<open>Reading a trace\<close>

text \<open>The calls of the diff command, and the reports of the \<open>catch\<close> clause.\<close>

fun isDelegation :: "event \<Rightarrow> bool" where
  "isDelegation (Invoke (ExecuteDiff l r t so)) = True"
| "isDelegation ev = False"

fun isReport :: "event \<Rightarrow> bool" where
  "isReport (LoggerError ex a b) = True"
| "isReport (ShowGenericErrorMessage m) = True"
| "isReport ev = False"

definition delegations :: "event list \<Rightarrow> event list" where
  "delegations tr = filter isDelegation tr"

definition reports :: "event list \<Rightarrow> event list" where
  "reports tr = filter isReport tr"

text \<open>The two content references are what \<open>getVersionedUri\<close> returned for the two sides
  as they are now.\<close>

definition acquired :: "env \<Rightarrow> state \<Rightarrow> bool" where
  "acquired e s =
     (case uri (revAt s (lhsAddr s)) of
        None \<Rightarrow> False
      | Some ul \<Rightarrow>
          (case uri (revAt s (rhsAddr s)) of
             None \<Rightarrow> False
           | Some ur \<Rightarrow>
               getVersionedUri e (repo s) (fsPath ul) (sha (revAt s (lhsAddr s))) = Inr (lhsRef s) \<and>
               getVersionedUri e (repo s) (fsPath ur) (sha (revAt s (rhsAddr s))) = Inr (rhsRef s)))"

subsection \<open>The collaborators at the missing revision\<close>


subsection \<open>A test double of the collaborators, and requests to run it on\<close>

definition missingSha :: string where
  "missingSha = ''ffffffffffffffffffffffffffffffffffffffff''"

definition fileUri :: "string \<Rightarrow> Uri" where
  "fileUri p = \<lparr>scheme = ''file'', fsPath = p, query = []\<rparr>"

definition revisionUri :: "string \<Rightarrow> string \<Rightarrow> Uri" where
  "revisionUri v p = \<lparr>scheme = ''gitlens'', fsPath = p, query = v\<rparr>"

text \<open>The double resolves \<open>HEAD\<close> to a commit, finds nothing for \<open>abc1234\<close>, and leaves every
  other reference as it is; the file is deleted in commit \<open>d00dfeed1234\<close>; there is no
  content at the missing revision, the working file exists, and every other revision
  has content; revisions are shortened to eight characters.\<close>

definition gitDouble :: env where
  "gitDouble =
     \<lparr>deletedOrMissingSha = missingSha,
      ArrowLeftRightLong = ''<->'',
      ViewColumnActive = - 1,
      resolveReference = (\<lambda>rp r u.
         if r = Some ''HEAD'' then Inr (Some ''a1b2c3d4e5f6'')
         else if r = Some ''abc1234'' then Inr (Some missingSha)
         else Inr r),
      getFileStatusForCommit = (\<lambda>rp p v.
         if v = ''d00dfeed1234'' then Inr (Some \<lparr>status = ''D'', fileName = p\<rparr>)
         else Inr (Some \<lparr>status = ''M'', fileName = p\<rparr>)),
      getVersionedUri = (\<lambda>rp p v.
         case v of
           None \<Rightarrow> Inr (Some (fileUri p))
         | Some x \<Rightarrow>
             if x = missingSha then Inr None
             else if x = [] then Inr (Some (fileUri p))
             else Inr (Some (revisionUri x p))),
      shortenSha = (\<lambda>v unc.
         case v of
           None \<Rightarrow> None
         | Some x \<Rightarrow>
             if x = [] then Some []
             else if x = missingSha then Some ''(deleted)''
             else Some (take 8 x)),
      isUncommitted = (\<lambda>v. v = Some ''0000000000000000000000000000000000000000''),
      basename = (\<lambda>p. rev (takeWhile (\<lambda>c. c \<noteq> CHR ''/'') (rev p))),
      toRevisionUri = (\<lambda>v p rp. revisionUri v p),
      newRange = (\<lambda>a b c d.
         if a < 0 \<or> c < 0 then Inl (Rejected ''illegal argument'')
         else Inr \<lparr>startLine = a, startCharacter = b, endLine = c, endCharacter = d\<rparr>),
      executeCommand = (\<lambda>l r t so. Inr ()),
      leftSettlesFirst = True\<rparr>"

text \<open>A caller's heap with one request at address 0: both sides are the file
  \<open>/repo/a.ts\<close>, at the two given revisions, without labels and without options.\<close>

definition request :: "string \<Rightarrow> string \<Rightarrow> store" where
  "request l r =
     \<lparr>argsObjs = (\<lambda>_. emptyArgs)
        (0 := \<lparr>lhs = Some 1, rhs = Some 2, repoPath = Some ''/repo'', line = None, showOptions = None\<rparr>),
      revObjs = (\<lambda>_. emptyRevision)
        (1 := \<lparr>sha = Some l, uri = Some (fileUri ''/repo/a.ts''), title = None\<rparr>,
         2 := \<lparr>sha = Some r, uri = Some (fileUri ''/repo/a.ts''), title = None\<rparr>),
      optsObjs = (\<lambda>_. emptyShowOptions),
      nextAddr = 3\<rparr>"

text \<open>The same request without its left side.\<close>

definition requestWithoutLhs :: store where
  "requestWithoutLhs =
     \<lparr>argsObjs = (\<lambda>_. emptyArgs)
        (0 := \<lparr>lhs = None, rhs = Some 1, repoPath = Some ''/repo'', line = None, showOptions = None\<rparr>),
      revObjs = (\<lambda>_. emptyRevision)
        (1 := \<lparr>sha = Some [], uri = Some (fileUri ''/repo/a.ts''), title = None\<rparr>),
      optsObjs = (\<lambda>_. emptyShowOptions),
      nextAddr = 2\<rparr>"

text \<open>The state in which the \<open>try\<close> block is entered for such a request: the copies
  of the two sides are at the addresses 3 and 4.\<close>

definition requestEntry :: "string \<Rightarrow> string \<Rightarrow> state" where
  "requestEntry l r = (enter (request l r) (Some 0))\<lparr>repo := ''/repo'', lhsAddr := 3, rhsAddr := 4\<rparr>"

section \<open>Properties\<close>

lemmas run_defs =
  execute_def guarded_def enter_def tryBlock_def afterOptions_def afterTitle_def afterSuffixes_def
  afterAcquire_def andThen_def resolveBoth_def keepLhsSha_def classifyRhs_def acquire_def
  deriveRhsSuffix_def lhsBase_def deriveLhsSuffix_def assignLhsTitle_def assignRhsTitle_def
  combineTitle_def ensureShowOptions_def defaultViewColumn_def selectLine_def delegate_def
  orPlaceholder_def
  catchClause_def withShowOptions_def newShowOptions_def
  setSha_def setTitle_def setLhsSha_def setRhsSha_def setRefs_def setLhsSuffix_def
  setRhsSuffix_def setTitleVar_def setOpts_def emit_def throw_def orEmpty_def orElse_def
  label_def emptyArgs_def emptyRevision_def emptyShowOptions_def

lemmas setter_defs =
  setSha_def setTitle_def setLhsSha_def setRhsSha_def setRefs_def setLhsSuffix_def
  setRhsSuffix_def setTitleVar_def setOpts_def emit_def throw_def withShowOptions_def
  newShowOptions_def

lemmas double_defs =
  gitDouble_def request_def requestWithoutLhs_def requestEntry_def missingSha_def fileUri_def
  revisionUri_def

subsection \<open>The guard of line 98\<close>

text \<open>A request without \<open>repoPath\<close> is a no-op: nothing is called and \<open>undefined\<close> is
  returned.\<close>

lemma execute_without_repoPath:
  assumes "a = Some p" and "repoPath (argsObjs st p) = None"
  shows "fst (execute e st a) = ReturnedUndefined \<and> trace (snd (execute e st a)) = []"
  using assms by (simp add: execute_def guarded_def enter_def Let_def)

text \<open>The copies \<open>{ ...args.lhs }\<close> and \<open>{ ...args.rhs }\<close> of line 94 and 95 are objects
  also when the side is undefined, so the tests \<open>args.lhs === undefined\<close> and
  \<open>args.rhs === undefined\<close> of line 98 never hold: with a \<open>repoPath\<close> the \<open>try\<close> block is
  always entered.\<close>

lemma guarded_enter:
  "guarded (enter st a) = None \<longleftrightarrow>
     (case a of None \<Rightarrow> True | Some p \<Rightarrow> repoPath (argsObjs st p) = None)"
  by (simp add: guarded_def enter_def Let_def emptyArgs_def split: option.splits)

text \<open>C1. A request without its left side, with a repository and a right side:
  \<open>resolveReference\<close> is called for both sides (with an undefined revision and an
  undefined uri for the left one), reading \<open>args.lhs.uri.fsPath\<close> at line 129 throws, and
  the user is shown the error message. The claim says that \<open>undefined\<close> is returned and that
  no collaborator is called.\<close>

theorem execute_without_lhs_calls_collaborators:
  "fst (execute gitDouble requestWithoutLhs (Some 0)) = ReturnedErrorMessage \<and>
   trace (snd (execute gitDouble requestWithoutLhs (Some 0))) =
     [Invoke (ResolveReference ''/repo'' None None),
      Settle (ResolveReference ''/repo'' None None),
      Invoke (ResolveReference ''/repo'' (Some []) (Some (fileUri ''/repo/a.ts''))),
      Settle (ResolveReference ''/repo'' (Some []) (Some (fileUri ''/repo/a.ts''))),
      LoggerError TypeError ''DiffWithCommand'' ''getVersionedFile'',
      ShowGenericErrorMessage ''Unable to open compare'']"
  by (simp add: run_defs double_defs Let_def)

subsection \<open>The order of the two resolutions\<close>

text \<open>In every run the right revision is resolved when the left resolution has settled,
  and not at all when the left one is rejected.\<close>

lemma resolveBoth_trace:
  "trace (resolveBoth e s) =
     trace s @
     [Invoke (ResolveReference (repo s) (sha (revAt s (lhsAddr s))) (uri (revAt s (lhsAddr s)))),
      Settle (ResolveReference (repo s) (sha (revAt s (lhsAddr s))) (uri (revAt s (lhsAddr s))))] @
     (case resolveReference e (repo s) (sha (revAt s (lhsAddr s))) (uri (revAt s (lhsAddr s))) of
        Inl _ \<Rightarrow> []
      | Inr _ \<Rightarrow>
          [Invoke (ResolveReference (repo s) (sha (revAt s (rhsAddr s))) (uri (revAt s (rhsAddr s)))),
           Settle (ResolveReference (repo s) (sha (revAt s (rhsAddr s))) (uri (revAt s (rhsAddr s))))])"
  by (simp add: resolveBoth_def Let_def emit_def throw_def setSha_def setLhsSha_def setRhsSha_def
      split: sum.splits)

text \<open>C2. The request \<open>HEAD\<close> against the working file, both sides needing resolution: the
  left lookup has settled before the right one is invoked (the two \<open>getVersionedUri\<close>
  calls of line 128, by contrast, are both invoked before either settles); and when the
  left lookup is rejected the right one is never made. The claim says that both lookups
  are in flight before either completes and that neither depends on the other.\<close>

theorem execute_resolves_left_then_right:
  "take 8 (trace (snd (execute gitDouble (request ''HEAD'' []) (Some 0)))) =
     [Invoke (ResolveReference ''/repo'' (Some ''HEAD'') (Some (fileUri ''/repo/a.ts''))),
      Settle (ResolveReference ''/repo'' (Some ''HEAD'') (Some (fileUri ''/repo/a.ts''))),
      Invoke (ResolveReference ''/repo'' (Some []) (Some (fileUri ''/repo/a.ts''))),
      Settle (ResolveReference ''/repo'' (Some []) (Some (fileUri ''/repo/a.ts''))),
      Invoke (GetVersionedUri ''/repo'' ''/repo/a.ts'' (Some ''a1b2c3d4e5f6'')),
      Invoke (GetVersionedUri ''/repo'' ''/repo/a.ts'' (Some [])),
      Settle (GetVersionedUri ''/repo'' ''/repo/a.ts'' (Some ''a1b2c3d4e5f6'')),
      Settle (GetVersionedUri ''/repo'' ''/repo/a.ts'' (Some []))] \<and>
   trace (snd (execute (gitDouble\<lparr>resolveReference := \<lambda>rp r u. Inl (Rejected ''git'')\<rparr>)
                 (request ''HEAD'' []) (Some 0))) =
     [Invoke (ResolveReference ''/repo'' (Some ''HEAD'') (Some (fileUri ''/repo/a.ts''))),
      Settle (ResolveReference ''/repo'' (Some ''HEAD'') (Some (fileUri ''/repo/a.ts''))),
      LoggerError (Rejected ''git'') ''DiffWithCommand'' ''getVersionedFile'',
      ShowGenericErrorMessage ''Unable to open compare'']"
  by (simp add: run_defs double_defs Let_def)

subsection \<open>What each step leaves alone\<close>

text \<open>One lemma for each step of the \<open>try\<close> block: the fields of the state it does not
  write, and for the steps that write a side, the fields of the side they do not write.\<close>

lemma resolveBoth_frame [simp]:
  "argsAt (resolveBoth e s) = argsAt s"
  "optsAt (resolveBoth e s) = optsAt s"
  "nextFree (resolveBoth e s) = nextFree s"
  "args (resolveBoth e s) = args s"
  "lhsAddr (resolveBoth e s) = lhsAddr s"
  "rhsAddr (resolveBoth e s) = rhsAddr s"
  "repo (resolveBoth e s) = repo s"
  "lhsRef (resolveBoth e s) = lhsRef s"
  "rhsRef (resolveBoth e s) = rhsRef s"
  "lhsSuffix (resolveBoth e s) = lhsSuffix s"
  "rhsSuffix (resolveBoth e s) = rhsSuffix s"
  "titleVar (resolveBoth e s) = titleVar s"
  "uri (revAt (resolveBoth e s) a) = uri (revAt s a)"
  "title (revAt (resolveBoth e s) a) = title (revAt s a)"
  by (auto simp add: resolveBoth_def Let_def lhsBase_def setSha_def setTitle_def setLhsSha_def setRhsSha_def setRefs_def setLhsSuffix_def setRhsSuffix_def setTitleVar_def setOpts_def emit_def throw_def withShowOptions_def newShowOptions_def split: option.splits sum.splits prod.splits)

lemma keepLhsSha_frame [simp]:
  "argsAt (keepLhsSha e s) = argsAt s"
  "revAt (keepLhsSha e s) = revAt s"
  "optsAt (keepLhsSha e s) = optsAt s"
  "nextFree (keepLhsSha e s) = nextFree s"
  "trace (keepLhsSha e s) = trace s"
  "thrown (keepLhsSha e s) = thrown s"
  "args (keepLhsSha e s) = args s"
  "lhsAddr (keepLhsSha e s) = lhsAddr s"
  "rhsAddr (keepLhsSha e s) = rhsAddr s"
  "repo (keepLhsSha e s) = repo s"
  "rhsSha (keepLhsSha e s) = rhsSha s"
  "lhsRef (keepLhsSha e s) = lhsRef s"
  "rhsRef (keepLhsSha e s) = rhsRef s"
  "lhsSuffix (keepLhsSha e s) = lhsSuffix s"
  "rhsSuffix (keepLhsSha e s) = rhsSuffix s"
  "titleVar (keepLhsSha e s) = titleVar s"
  by (auto simp add: keepLhsSha_def Let_def lhsBase_def setSha_def setTitle_def setLhsSha_def setRhsSha_def setRefs_def setLhsSuffix_def setRhsSuffix_def setTitleVar_def setOpts_def emit_def throw_def withShowOptions_def newShowOptions_def split: option.splits sum.splits prod.splits)

lemma classifyRhs_frame [simp]:
  "argsAt (classifyRhs e s) = argsAt s"
  "optsAt (classifyRhs e s) = optsAt s"
  "nextFree (classifyRhs e s) = nextFree s"
  "args (classifyRhs e s) = args s"
  "lhsAddr (classifyRhs e s) = lhsAddr s"
  "rhsAddr (classifyRhs e s) = rhsAddr s"
  "repo (classifyRhs e s) = repo s"
  "lhsSha (classifyRhs e s) = lhsSha s"
  "lhsRef (classifyRhs e s) = lhsRef s"
  "rhsRef (classifyRhs e s) = rhsRef s"
  "lhsSuffix (classifyRhs e s) = lhsSuffix s"
  "rhsSuffix (classifyRhs e s) = rhsSuffix s"
  "titleVar (classifyRhs e s) = titleVar s"
  "uri (revAt (classifyRhs e s) a) = uri (revAt s a)"
  "title (revAt (classifyRhs e s) a) = title (revAt s a)"
  by (auto simp add: classifyRhs_def Let_def lhsBase_def setSha_def setTitle_def setLhsSha_def setRhsSha_def setRefs_def setLhsSuffix_def setRhsSuffix_def setTitleVar_def setOpts_def emit_def throw_def withShowOptions_def newShowOptions_def split: option.splits sum.splits prod.splits)

lemma acquire_frame [simp]:
  "argsAt (acquire e s) = argsAt s"
  "revAt (acquire e s) = revAt s"
  "optsAt (acquire e s) = optsAt s"
  "nextFree (acquire e s) = nextFree s"
  "args (acquire e s) = args s"
  "lhsAddr (acquire e s) = lhsAddr s"
  "rhsAddr (acquire e s) = rhsAddr s"
  "repo (acquire e s) = repo s"
  "lhsSha (acquire e s) = lhsSha s"
  "rhsSha (acquire e s) = rhsSha s"
  "lhsSuffix (acquire e s) = lhsSuffix s"
  "rhsSuffix (acquire e s) = rhsSuffix s"
  "titleVar (acquire e s) = titleVar s"
  by (auto simp add: acquire_def Let_def lhsBase_def setSha_def setTitle_def setLhsSha_def setRhsSha_def setRefs_def setLhsSuffix_def setRhsSuffix_def setTitleVar_def setOpts_def emit_def throw_def withShowOptions_def newShowOptions_def split: option.splits sum.splits prod.splits)

lemma deriveRhsSuffix_frame [simp]:
  "argsAt (deriveRhsSuffix e s) = argsAt s"
  "revAt (deriveRhsSuffix e s) = revAt s"
  "optsAt (deriveRhsSuffix e s) = optsAt s"
  "nextFree (deriveRhsSuffix e s) = nextFree s"
  "trace (deriveRhsSuffix e s) = trace s"
  "thrown (deriveRhsSuffix e s) = thrown s"
  "args (deriveRhsSuffix e s) = args s"
  "lhsAddr (deriveRhsSuffix e s) = lhsAddr s"
  "rhsAddr (deriveRhsSuffix e s) = rhsAddr s"
  "repo (deriveRhsSuffix e s) = repo s"
  "lhsSha (deriveRhsSuffix e s) = lhsSha s"
  "rhsSha (deriveRhsSuffix e s) = rhsSha s"
  "lhsRef (deriveRhsSuffix e s) = lhsRef s"
  "rhsRef (deriveRhsSuffix e s) = rhsRef s"
  "lhsSuffix (deriveRhsSuffix e s) = lhsSuffix s"
  "titleVar (deriveRhsSuffix e s) = titleVar s"
  by (auto simp add: deriveRhsSuffix_def Let_def lhsBase_def setSha_def setTitle_def setLhsSha_def setRhsSha_def setRefs_def setLhsSuffix_def setRhsSuffix_def setTitleVar_def setOpts_def emit_def throw_def withShowOptions_def newShowOptions_def split: option.splits sum.splits prod.splits)

lemma deriveLhsSuffix_frame [simp]:
  "argsAt (deriveLhsSuffix e s) = argsAt s"
  "revAt (deriveLhsSuffix e s) = revAt s"
  "optsAt (deriveLhsSuffix e s) = optsAt s"
  "nextFree (deriveLhsSuffix e s) = nextFree s"
  "trace (deriveLhsSuffix e s) = trace s"
  "args (deriveLhsSuffix e s) = args s"
  "lhsAddr (deriveLhsSuffix e s) = lhsAddr s"
  "rhsAddr (deriveLhsSuffix e s) = rhsAddr s"
  "repo (deriveLhsSuffix e s) = repo s"
  "lhsSha (deriveLhsSuffix e s) = lhsSha s"
  "rhsSha (deriveLhsSuffix e s) = rhsSha s"
  "lhsRef (deriveLhsSuffix e s) = lhsRef s"
  "rhsRef (deriveLhsSuffix e s) = rhsRef s"
  "titleVar (deriveLhsSuffix e s) = titleVar s"
  by (auto simp add: deriveLhsSuffix_def Let_def lhsBase_def setSha_def setTitle_def setLhsSha_def setRhsSha_def setRefs_def setLhsSuffix_def setRhsSuffix_def setTitleVar_def setOpts_def emit_def throw_def withShowOptions_def newShowOptions_def split: option.splits sum.splits prod.splits)

lemma assignLhsTitle_frame [simp]:
  "argsAt (assignLhsTitle e s) = argsAt s"
  "optsAt (assignLhsTitle e s) = optsAt s"
  "nextFree (assignLhsTitle e s) = nextFree s"
  "trace (assignLhsTitle e s) = trace s"
  "args (assignLhsTitle e s) = args s"
  "lhsAddr (assignLhsTitle e s) = lhsAddr s"
  "rhsAddr (assignLhsTitle e s) = rhsAddr s"
  "repo (assignLhsTitle e s) = repo s"
  "lhsSha (assignLhsTitle e s) = lhsSha s"
  "rhsSha (assignLhsTitle e s) = rhsSha s"
  "lhsRef (assignLhsTitle e s) = lhsRef s"
  "rhsRef (assignLhsTitle e s) = rhsRef s"
  "lhsSuffix (assignLhsTitle e s) = lhsSuffix s"
  "rhsSuffix (assignLhsTitle e s) = rhsSuffix s"
  "titleVar (assignLhsTitle e s) = titleVar s"
  "uri (revAt (assignLhsTitle e s) a) = uri (revAt s a)"
  "sha (revAt (assignLhsTitle e s) a) = sha (revAt s a)"
  by (auto simp add: assignLhsTitle_def Let_def lhsBase_def setSha_def setTitle_def setLhsSha_def setRhsSha_def setRefs_def setLhsSuffix_def setRhsSuffix_def setTitleVar_def setOpts_def emit_def throw_def withShowOptions_def newShowOptions_def split: option.splits sum.splits prod.splits)

lemma assignRhsTitle_frame [simp]:
  "argsAt (assignRhsTitle e s) = argsAt s"
  "optsAt (assignRhsTitle e s) = optsAt s"
  "nextFree (assignRhsTitle e s) = nextFree s"
  "trace (assignRhsTitle e s) = trace s"
  "args (assignRhsTitle e s) = args s"
  "lhsAddr (assignRhsTitle e s) = lhsAddr s"
  "rhsAddr (assignRhsTitle e s) = rhsAddr s"
  "repo (assignRhsTitle e s) = repo s"
  "lhsSha (assignRhsTitle e s) = lhsSha s"
  "rhsSha (assignRhsTitle e s) = rhsSha s"
  "lhsRef (assignRhsTitle e s) = lhsRef s"
  "rhsRef (assignRhsTitle e s) = rhsRef s"
  "lhsSuffix (assignRhsTitle e s) = lhsSuffix s"
  "rhsSuffix (assignRhsTitle e s) = rhsSuffix s"
  "titleVar (assignRhsTitle e s) = titleVar s"
  "uri (revAt (assignRhsTitle e s) a) = uri (revAt s a)"
  "sha (revAt (assignRhsTitle e s) a) = sha (revAt s a)"
  by (auto simp add: assignRhsTitle_def Let_def lhsBase_def setSha_def setTitle_def setLhsSha_def setRhsSha_def setRefs_def setLhsSuffix_def setRhsSuffix_def setTitleVar_def setOpts_def emit_def throw_def withShowOptions_def newShowOptions_def split: option.splits sum.splits prod.splits)

lemma combineTitle_frame [simp]:
  "argsAt (combineTitle e s) = argsAt s"
  "revAt (combineTitle e s) = revAt s"
  "optsAt (combineTitle e s) = optsAt s"
  "nextFree (combineTitle e s) = nextFree s"
  "trace (combineTitle e s) = trace s"
  "thrown (combineTitle e s) = thrown s"
  "args (combineTitle e s) = args s"
  "lhsAddr (combineTitle e s) = lhsAddr s"
  "rhsAddr (combineTitle e s) = rhsAddr s"
  "repo (combineTitle e s) = repo s"
  "lhsSha (combineTitle e s) = lhsSha s"
  "rhsSha (combineTitle e s) = rhsSha s"
  "lhsRef (combineTitle e s) = lhsRef s"
  "rhsRef (combineTitle e s) = rhsRef s"
  "lhsSuffix (combineTitle e s) = lhsSuffix s"
  "rhsSuffix (combineTitle e s) = rhsSuffix s"
  by (auto simp add: combineTitle_def Let_def lhsBase_def setSha_def setTitle_def setLhsSha_def setRhsSha_def setRefs_def setLhsSuffix_def setRhsSuffix_def setTitleVar_def setOpts_def emit_def throw_def withShowOptions_def newShowOptions_def split: option.splits sum.splits prod.splits)

lemma ensureShowOptions_frame [simp]:
  "revAt (ensureShowOptions s) = revAt s"
  "trace (ensureShowOptions s) = trace s"
  "thrown (ensureShowOptions s) = thrown s"
  "args (ensureShowOptions s) = args s"
  "lhsAddr (ensureShowOptions s) = lhsAddr s"
  "rhsAddr (ensureShowOptions s) = rhsAddr s"
  "repo (ensureShowOptions s) = repo s"
  "lhsSha (ensureShowOptions s) = lhsSha s"
  "rhsSha (ensureShowOptions s) = rhsSha s"
  "lhsRef (ensureShowOptions s) = lhsRef s"
  "rhsRef (ensureShowOptions s) = rhsRef s"
  "lhsSuffix (ensureShowOptions s) = lhsSuffix s"
  "rhsSuffix (ensureShowOptions s) = rhsSuffix s"
  "titleVar (ensureShowOptions s) = titleVar s"
  by (auto simp add: ensureShowOptions_def Let_def lhsBase_def setSha_def setTitle_def setLhsSha_def setRhsSha_def setRefs_def setLhsSuffix_def setRhsSuffix_def setTitleVar_def setOpts_def emit_def throw_def withShowOptions_def newShowOptions_def split: option.splits sum.splits prod.splits)

lemma defaultViewColumn_frame [simp]:
  "argsAt (defaultViewColumn e s) = argsAt s"
  "revAt (defaultViewColumn e s) = revAt s"
  "nextFree (defaultViewColumn e s) = nextFree s"
  "trace (defaultViewColumn e s) = trace s"
  "args (defaultViewColumn e s) = args s"
  "lhsAddr (defaultViewColumn e s) = lhsAddr s"
  "rhsAddr (defaultViewColumn e s) = rhsAddr s"
  "repo (defaultViewColumn e s) = repo s"
  "lhsSha (defaultViewColumn e s) = lhsSha s"
  "rhsSha (defaultViewColumn e s) = rhsSha s"
  "lhsRef (defaultViewColumn e s) = lhsRef s"
  "rhsRef (defaultViewColumn e s) = rhsRef s"
  "lhsSuffix (defaultViewColumn e s) = lhsSuffix s"
  "rhsSuffix (defaultViewColumn e s) = rhsSuffix s"
  "titleVar (defaultViewColumn e s) = titleVar s"
  by (auto simp add: defaultViewColumn_def Let_def lhsBase_def setSha_def setTitle_def setLhsSha_def setRhsSha_def setRefs_def setLhsSuffix_def setRhsSuffix_def setTitleVar_def setOpts_def emit_def throw_def withShowOptions_def newShowOptions_def split: option.splits sum.splits prod.splits)

lemma selectLine_frame [simp]:
  "argsAt (selectLine e s) = argsAt s"
  "revAt (selectLine e s) = revAt s"
  "nextFree (selectLine e s) = nextFree s"
  "trace (selectLine e s) = trace s"
  "args (selectLine e s) = args s"
  "lhsAddr (selectLine e s) = lhsAddr s"
  "rhsAddr (selectLine e s) = rhsAddr s"
  "repo (selectLine e s) = repo s"
  "lhsSha (selectLine e s) = lhsSha s"
  "rhsSha (selectLine e s) = rhsSha s"
  "lhsRef (selectLine e s) = lhsRef s"
  "rhsRef (selectLine e s) = rhsRef s"
  "lhsSuffix (selectLine e s) = lhsSuffix s"
  "rhsSuffix (selectLine e s) = rhsSuffix s"
  "titleVar (selectLine e s) = titleVar s"
  by (auto simp add: selectLine_def Let_def lhsBase_def setSha_def setTitle_def setLhsSha_def setRhsSha_def setRefs_def setLhsSuffix_def setRhsSuffix_def setTitleVar_def setOpts_def emit_def throw_def withShowOptions_def newShowOptions_def split: option.splits sum.splits prod.splits)

lemma delegate_frame [simp]:
  "argsAt (delegate e s) = argsAt s"
  "revAt (delegate e s) = revAt s"
  "optsAt (delegate e s) = optsAt s"
  "nextFree (delegate e s) = nextFree s"
  "args (delegate e s) = args s"
  "lhsAddr (delegate e s) = lhsAddr s"
  "rhsAddr (delegate e s) = rhsAddr s"
  "repo (delegate e s) = repo s"
  "lhsSha (delegate e s) = lhsSha s"
  "rhsSha (delegate e s) = rhsSha s"
  "lhsRef (delegate e s) = lhsRef s"
  "rhsRef (delegate e s) = rhsRef s"
  "lhsSuffix (delegate e s) = lhsSuffix s"
  "rhsSuffix (delegate e s) = rhsSuffix s"
  "titleVar (delegate e s) = titleVar s"
  by (auto simp add: delegate_def orPlaceholder_def Let_def lhsBase_def setSha_def setTitle_def setLhsSha_def setRhsSha_def setRefs_def setLhsSuffix_def setRhsSuffix_def setTitleVar_def setOpts_def emit_def throw_def withShowOptions_def newShowOptions_def split: option.splits sum.splits prod.splits)

lemma catchClause_frame [simp]:
  "argsAt (snd (catchClause s)) = argsAt s"
  "revAt (snd (catchClause s)) = revAt s"
  "optsAt (snd (catchClause s)) = optsAt s"
  "nextFree (snd (catchClause s)) = nextFree s"
  "thrown (snd (catchClause s)) = thrown s"
  "args (snd (catchClause s)) = args s"
  "lhsAddr (snd (catchClause s)) = lhsAddr s"
  "rhsAddr (snd (catchClause s)) = rhsAddr s"
  "repo (snd (catchClause s)) = repo s"
  "lhsSha (snd (catchClause s)) = lhsSha s"
  "rhsSha (snd (catchClause s)) = rhsSha s"
  "lhsRef (snd (catchClause s)) = lhsRef s"
  "rhsRef (snd (catchClause s)) = rhsRef s"
  "lhsSuffix (snd (catchClause s)) = lhsSuffix s"
  "rhsSuffix (snd (catchClause s)) = rhsSuffix s"
  "titleVar (snd (catchClause s)) = titleVar s"
  by (simp_all add: catchClause_def emit_def split: option.splits)

lemma afterAcquire_frame [simp]:
  "argsAt (afterAcquire e s) = argsAt s"
  "optsAt (afterAcquire e s) = optsAt s"
  "nextFree (afterAcquire e s) = nextFree s"
  "args (afterAcquire e s) = args s"
  "lhsAddr (afterAcquire e s) = lhsAddr s"
  "rhsAddr (afterAcquire e s) = rhsAddr s"
  "repo (afterAcquire e s) = repo s"
  "lhsSuffix (afterAcquire e s) = lhsSuffix s"
  "rhsSuffix (afterAcquire e s) = rhsSuffix s"
  "titleVar (afterAcquire e s) = titleVar s"
  "uri (revAt (afterAcquire e s) p) = uri (revAt s p)"
  "title (revAt (afterAcquire e s) p) = title (revAt s p)"
  by (simp_all add: afterAcquire_def andThen_def Let_def)

lemma afterSuffixes_frame [simp]:
  "argsAt (afterSuffixes e s) = argsAt s"
  "optsAt (afterSuffixes e s) = optsAt s"
  "nextFree (afterSuffixes e s) = nextFree s"
  "args (afterSuffixes e s) = args s"
  "lhsAddr (afterSuffixes e s) = lhsAddr s"
  "rhsAddr (afterSuffixes e s) = rhsAddr s"
  "repo (afterSuffixes e s) = repo s"
  "titleVar (afterSuffixes e s) = titleVar s"
  "uri (revAt (afterSuffixes e s) p) = uri (revAt s p)"
  "title (revAt (afterSuffixes e s) p) = title (revAt s p)"
  by (simp_all add: afterSuffixes_def andThen_def Let_def)

lemma afterSuffixes_after [simp]:
  "revAt (afterSuffixes e s) = revAt (afterAcquire e s)"
  "trace (afterSuffixes e s) = trace (afterAcquire e s)"
  "lhsSha (afterSuffixes e s) = lhsSha (afterAcquire e s)"
  "rhsSha (afterSuffixes e s) = rhsSha (afterAcquire e s)"
  "lhsRef (afterSuffixes e s) = lhsRef (afterAcquire e s)"
  "rhsRef (afterSuffixes e s) = rhsRef (afterAcquire e s)"
  by (simp_all add: afterSuffixes_def andThen_def Let_def)

lemma afterTitle_frame [simp]:
  "argsAt (afterTitle e s) = argsAt s"
  "optsAt (afterTitle e s) = optsAt s"
  "nextFree (afterTitle e s) = nextFree s"
  "args (afterTitle e s) = args s"
  "lhsAddr (afterTitle e s) = lhsAddr s"
  "rhsAddr (afterTitle e s) = rhsAddr s"
  "repo (afterTitle e s) = repo s"
  "uri (revAt (afterTitle e s) p) = uri (revAt s p)"
  by (simp_all add: afterTitle_def andThen_def Let_def)

lemma afterTitle_after [simp]:
  "trace (afterTitle e s) = trace (afterSuffixes e s)"
  "lhsSha (afterTitle e s) = lhsSha (afterSuffixes e s)"
  "rhsSha (afterTitle e s) = rhsSha (afterSuffixes e s)"
  "lhsRef (afterTitle e s) = lhsRef (afterSuffixes e s)"
  "rhsRef (afterTitle e s) = rhsRef (afterSuffixes e s)"
  "lhsSuffix (afterTitle e s) = lhsSuffix (afterSuffixes e s)"
  "rhsSuffix (afterTitle e s) = rhsSuffix (afterSuffixes e s)"
  "sha (revAt (afterTitle e s) p) = sha (revAt (afterSuffixes e s) p)"
  by (simp_all add: afterTitle_def andThen_def Let_def)

lemma guarded_frame:
  "guarded s = Some s' \<Longrightarrow> revAt s' = revAt s \<and> argsAt s' = argsAt s \<and> optsAt s' = optsAt s \<and> args s' = args s
     \<and> lhs (argsAt s (args s)) = Some (lhsAddr s') \<and> rhs (argsAt s (args s)) = Some (rhsAddr s')
     \<and> repoPath (argsAt s (args s)) = Some (repo s') \<and> trace s' = trace s \<and> thrown s' = thrown s
     \<and> nextFree s' = nextFree s"
  by (auto simp add: guarded_def split: option.splits)

lemma ensureShowOptions_args:
  "lhs (argsAt (ensureShowOptions s) p) = lhs (argsAt s p)"
  "rhs (argsAt (ensureShowOptions s) p) = rhs (argsAt s p)"
  "repoPath (argsAt (ensureShowOptions s) p) = repoPath (argsAt s p)"
  "line (argsAt (ensureShowOptions s) p) = line (argsAt s p)"
  by (simp_all add: ensureShowOptions_def newShowOptions_def)

lemma afterOptions_frame [simp]:
  "args (afterOptions e s) = args s"
  "lhsAddr (afterOptions e s) = lhsAddr s"
  "rhsAddr (afterOptions e s) = rhsAddr s"
  "repo (afterOptions e s) = repo s"
  "uri (revAt (afterOptions e s) p) = uri (revAt s p)"
  "lhs (argsAt (afterOptions e s) p) = lhs (argsAt s p)"
  "rhs (argsAt (afterOptions e s) p) = rhs (argsAt s p)"
  "repoPath (argsAt (afterOptions e s) p) = repoPath (argsAt s p)"
  "line (argsAt (afterOptions e s) p) = line (argsAt s p)"
  by (simp_all add: afterOptions_def andThen_def Let_def ensureShowOptions_args)

lemma afterOptions_after [simp]:
  "revAt (afterOptions e s) = revAt (afterTitle e s)"
  "trace (afterOptions e s) = trace (afterTitle e s)"
  "lhsSha (afterOptions e s) = lhsSha (afterTitle e s)"
  "rhsSha (afterOptions e s) = rhsSha (afterTitle e s)"
  "lhsRef (afterOptions e s) = lhsRef (afterTitle e s)"
  "rhsRef (afterOptions e s) = rhsRef (afterTitle e s)"
  "lhsSuffix (afterOptions e s) = lhsSuffix (afterTitle e s)"
  "rhsSuffix (afterOptions e s) = rhsSuffix (afterTitle e s)"
  "titleVar (afterOptions e s) = titleVar (afterTitle e s)"
  by (simp_all add: afterOptions_def andThen_def Let_def)

lemma tryBlock_frame [simp]:
  "args (tryBlock e s) = args s"
  "lhsAddr (tryBlock e s) = lhsAddr s"
  "rhsAddr (tryBlock e s) = rhsAddr s"
  "repo (tryBlock e s) = repo s"
  "uri (revAt (tryBlock e s) p) = uri (revAt s p)"
  "lhs (argsAt (tryBlock e s) p) = lhs (argsAt s p)"
  "rhs (argsAt (tryBlock e s) p) = rhs (argsAt s p)"
  "repoPath (argsAt (tryBlock e s) p) = repoPath (argsAt s p)"
  "line (argsAt (tryBlock e s) p) = line (argsAt s p)"
  by (simp_all add: tryBlock_def andThen_def Let_def)

lemma tryBlock_after [simp]:
  "argsAt (tryBlock e s) = argsAt (afterOptions e s)"
  "revAt (tryBlock e s) = revAt (afterOptions e s)"
  "optsAt (tryBlock e s) = optsAt (afterOptions e s)"
  "nextFree (tryBlock e s) = nextFree (afterOptions e s)"
  "lhsSha (tryBlock e s) = lhsSha (afterOptions e s)"
  "rhsSha (tryBlock e s) = rhsSha (afterOptions e s)"
  "lhsRef (tryBlock e s) = lhsRef (afterOptions e s)"
  "rhsRef (tryBlock e s) = rhsRef (afterOptions e s)"
  "lhsSuffix (tryBlock e s) = lhsSuffix (afterOptions e s)"
  "rhsSuffix (tryBlock e s) = rhsSuffix (afterOptions e s)"
  "titleVar (tryBlock e s) = titleVar (afterOptions e s)"
  by (simp_all add: tryBlock_def andThen_def Let_def)

subsection \<open>The locations of the two sides\<close>

text \<open>On entry the two sides are copies of the caller's two sides.\<close>

lemma enter_sides:
  assumes "lhs (argsObjs st p) = Some q" and "rhs (argsObjs st p) = Some q'"
  shows "lhs (argsAt (enter st (Some p)) (args (enter st (Some p)))) = Some (nextAddr st)"
    and "rhs (argsAt (enter st (Some p)) (args (enter st (Some p)))) = Some (nextAddr st + 1)"
    and "revAt (enter st (Some p)) (nextAddr st) = revObjs st q"
    and "revAt (enter st (Some p)) (nextAddr st + 1) = revObjs st q'"
  using assms by (simp_all add: enter_def Let_def)

text \<open>C8. From the entry of \<open>execute\<close> (after the copies of line 92 to 97) to its end, the
  \<open>uri\<close> of every revision object is what it was, and \<open>args.lhs\<close> and \<open>args.rhs\<close> are the
  same two objects: the steps write only the \<open>sha\<close> and the \<open>title\<close> of a side.\<close>

theorem execute_keeps_uri:
  "uri (revAt (snd (execute e st a)) p) = uri (revAt (enter st a) p) \<and>
   lhs (argsAt (snd (execute e st a)) (args (snd (execute e st a)))) =
     lhs (argsAt (enter st a) (args (enter st a))) \<and>
   rhs (argsAt (snd (execute e st a)) (args (snd (execute e st a)))) =
     rhs (argsAt (enter st a) (args (enter st a)))"
proof (cases "guarded (enter st a)")
  case None
  then show ?thesis by (simp add: execute_def)
next
  case (Some s)
  have fr: "revAt s = revAt (enter st a)" "argsAt s = argsAt (enter st a)" "args s = args (enter st a)"
    using guarded_frame [OF Some] by simp_all
  have ex: "snd (execute e st a) = snd (catchClause (tryBlock e s))"
    using Some by (simp add: execute_def)
  have 1: "uri (revAt (snd (execute e st a)) p) = uri (revAt (enter st a) p)"
    by (simp add: ex fr)
  have 2: "lhs (argsAt (snd (execute e st a)) (args (snd (execute e st a)))) =
      lhs (argsAt (enter st a) (args (enter st a)))"
    by (simp add: ex fr)
  have 3: "rhs (argsAt (snd (execute e st a)) (args (snd (execute e st a)))) =
      rhs (argsAt (enter st a) (args (enter st a)))"
    by (simp add: ex fr)
  from 1 2 3 show ?thesis by blast
qed

subsection \<open>The caller's objects\<close>

text \<open>The steps write the two sides and the options object that \<open>args\<close> refers to, and
  nothing else.\<close>

lemma resolveBoth_writes:
  "p \<noteq> lhsAddr s \<Longrightarrow> p \<noteq> rhsAddr s \<Longrightarrow> revAt (resolveBoth e s) p = revAt s p"
  by (auto simp add: resolveBoth_def Let_def setter_defs split: sum.splits)

lemma classifyRhs_writes:
  "p \<noteq> rhsAddr s \<Longrightarrow> revAt (classifyRhs e s) p = revAt s p"
  by (auto simp add: classifyRhs_def Let_def setter_defs split: sum.splits option.splits)

lemma assignLhsTitle_writes:
  "p \<noteq> lhsAddr s \<Longrightarrow> revAt (assignLhsTitle e s) p = revAt s p"
  by (auto simp add: assignLhsTitle_def Let_def setter_defs split: sum.splits option.splits)

lemma assignRhsTitle_writes:
  "p \<noteq> rhsAddr s \<Longrightarrow> revAt (assignRhsTitle e s) p = revAt s p"
  by (auto simp add: assignRhsTitle_def Let_def setter_defs split: sum.splits option.splits)

lemma afterAcquire_writes:
  "p \<noteq> lhsAddr s \<Longrightarrow> p \<noteq> rhsAddr s \<Longrightarrow> revAt (afterAcquire e s) p = revAt s p"
  by (simp add: afterAcquire_def andThen_def Let_def resolveBoth_writes classifyRhs_writes)

lemma afterSuffixes_writes:
  "p \<noteq> lhsAddr s \<Longrightarrow> p \<noteq> rhsAddr s \<Longrightarrow> revAt (afterSuffixes e s) p = revAt s p"
  by (simp add: afterSuffixes_def andThen_def Let_def afterAcquire_writes)

lemma afterTitle_writes:
  "p \<noteq> lhsAddr s \<Longrightarrow> p \<noteq> rhsAddr s \<Longrightarrow> revAt (afterTitle e s) p = revAt s p"
  by (simp add: afterTitle_def andThen_def Let_def afterAcquire_writes assignLhsTitle_writes
      assignRhsTitle_writes)

lemma ensureShowOptions_defined:
  "showOptions (argsAt s (args s)) = Some q \<Longrightarrow> ensureShowOptions s = s"
  by (simp add: ensureShowOptions_def)

lemma defaultViewColumn_writes:
  "showOptions (argsAt s (args s)) = Some q \<Longrightarrow> p \<noteq> q \<Longrightarrow>
     optsAt (defaultViewColumn e s) p = optsAt s p"
  by (simp add: defaultViewColumn_def setter_defs)

lemma selectLine_writes:
  "showOptions (argsAt s (args s)) = Some q \<Longrightarrow> p \<noteq> q \<Longrightarrow>
     optsAt (selectLine e s) p = optsAt s p"
  by (simp add: selectLine_def setter_defs split: option.splits sum.splits)

lemma afterOptions_writes:
  assumes "showOptions (argsAt s (args s)) = Some q"
  shows "argsAt (afterOptions e s) = argsAt s"
    and "p \<noteq> q \<Longrightarrow> optsAt (afterOptions e s) p = optsAt s p"
  using assms
  by (simp_all add: afterOptions_def andThen_def Let_def ensureShowOptions_defined [of _ q]
      defaultViewColumn_writes selectLine_writes)

lemma tryBlock_writes:
  assumes "showOptions (argsAt s (args s)) = Some q"
  shows "argsAt (tryBlock e s) = argsAt s"
    and "p \<noteq> lhsAddr s \<Longrightarrow> p \<noteq> rhsAddr s \<Longrightarrow> revAt (tryBlock e s) p = revAt s p"
    and "p \<noteq> q \<Longrightarrow> optsAt (tryBlock e s) p = optsAt s p"
  using assms by (simp_all add: afterOptions_writes afterTitle_writes)

lemma enter_store:
  "p < nextAddr st \<Longrightarrow>
     argsAt (enter st a) p = argsObjs st p \<and> revAt (enter st a) p = revObjs st p \<and>
     optsAt (enter st a) p = optsObjs st p"
  by (simp add: enter_def Let_def split: option.splits)

lemma enter_copies:
  "\<exists>n. nextAddr st \<le> n \<and> lhs (argsAt (enter st a) (args (enter st a))) = Some n \<and>
     rhs (argsAt (enter st a) (args (enter st a))) = Some (n + 1) \<and>
     showOptions (argsAt (enter st a) (args (enter st a))) = Some (n + 2) \<and>
     args (enter st a) = n + 3"
  by (cases a) (simp_all add: enter_def Let_def)

text \<open>C9. Every object of the caller's heap (every address below \<open>nextAddr\<close>) is at the end
  of \<open>execute\<close> what it was at the call; and the \<open>args\<close>, \<open>args.lhs\<close>, \<open>args.rhs\<close> and
  \<open>args.showOptions\<close> that \<open>execute\<close> works on are objects made by \<open>execute\<close> itself, at
  addresses that the caller's heap does not use.\<close>

theorem execute_keeps_callers_objects:
  "(p < nextAddr st \<longrightarrow>
      argsAt (snd (execute e st a)) p = argsObjs st p \<and>
      revAt (snd (execute e st a)) p = revObjs st p \<and>
      optsAt (snd (execute e st a)) p = optsObjs st p) \<and>
   (\<exists>l r so. lhs (argsAt (snd (execute e st a)) (args (snd (execute e st a)))) = Some l \<and>
      rhs (argsAt (snd (execute e st a)) (args (snd (execute e st a)))) = Some r \<and>
      showOptions (argsAt (snd (execute e st a)) (args (snd (execute e st a)))) = Some so \<and>
      nextAddr st \<le> l \<and> nextAddr st \<le> r \<and> nextAddr st \<le> so \<and>
      nextAddr st \<le> args (snd (execute e st a)))"
proof -
  obtain n where n: "nextAddr st \<le> n"
      "lhs (argsAt (enter st a) (args (enter st a))) = Some n"
      "rhs (argsAt (enter st a) (args (enter st a))) = Some (n + 1)"
      "showOptions (argsAt (enter st a) (args (enter st a))) = Some (n + 2)"
      "args (enter st a) = n + 3"
    using enter_copies by blast
  show ?thesis
  proof (cases "guarded (enter st a)")
    case None
    then have ex: "snd (execute e st a) = enter st a" by (simp add: execute_def)
    show ?thesis unfolding ex using n enter_store [of p st a] by auto
  next
    case (Some s)
    have fr: "revAt s = revAt (enter st a)" "argsAt s = argsAt (enter st a)"
        "optsAt s = optsAt (enter st a)" "args s = args (enter st a)"
        "lhsAddr s = n" "rhsAddr s = n + 1"
      using guarded_frame [OF Some] n by simp_all
    have so: "showOptions (argsAt s (args s)) = Some (n + 2)"
      using n by (simp add: fr)
    have ex: "snd (execute e st a) = snd (catchClause (tryBlock e s))"
      using Some by (simp add: execute_def)
    have a1: "argsAt (snd (execute e st a)) = argsAt (enter st a)"
      by (simp add: ex afterOptions_writes(1) [OF so] fr)
    have a2: "args (snd (execute e st a)) = n + 3"
      using n by (simp add: ex fr)
    have low: "p < nextAddr st \<Longrightarrow> revAt (snd (execute e st a)) p = revAt (enter st a) p \<and>
        optsAt (snd (execute e st a)) p = optsAt (enter st a) p"
      using n(1) by (simp add: ex afterOptions_writes(2) [OF so] afterTitle_writes fr)
    show ?thesis
      using n low enter_store [of p st a] by (auto simp add: a1 a2)
  qed
qed


theorem execute_keeps_callers_objects_witness:
  "(1::nat) < nextAddr (request ''HEAD'' []) \<and>
   revAt (snd (execute gitDouble (request ''HEAD'' []) (Some 0))) 1 =
     \<lparr>sha = Some ''HEAD'', uri = Some (fileUri ''/repo/a.ts''), title = None\<rparr> \<and>
   optsAt (snd (execute gitDouble (request ''HEAD'' []) (Some 0))) 1 = emptyShowOptions"
  using execute_keeps_callers_objects [of 1 "request ''HEAD'' []" gitDouble "Some 0"]
  by (simp add: request_def)

subsection \<open>Exceptions\<close>

lemma andThen_None:
  "thrown (andThen f g s) = None \<Longrightarrow> thrown (f s) = None \<and> andThen f g s = g (f s)"
  by (cases "thrown (f s)") (simp_all add: andThen_def Let_def)

lemma quiet_steps [simp]:
  "delegations (trace (resolveBoth e s)) = delegations (trace s)"
  "delegations (trace (classifyRhs e s)) = delegations (trace s)"
  "delegations (trace (acquire e s)) = delegations (trace s)"
  "reports (trace (resolveBoth e s)) = reports (trace s)"
  "reports (trace (classifyRhs e s)) = reports (trace s)"
  "reports (trace (acquire e s)) = reports (trace s)"
  "reports (trace (delegate e s)) = reports (trace s)"
  by (auto simp add: delegations_def reports_def resolveBoth_def classifyRhs_def acquire_def delegate_def
      Let_def setter_defs split: sum.splits option.splits)

lemma afterAcquire_quiet [simp]:
  "delegations (trace (afterAcquire e s)) = delegations (trace s)"
  "reports (trace (afterAcquire e s)) = reports (trace s)"
  by (simp_all add: afterAcquire_def andThen_def Let_def)

lemma delegate_cases:
  "(delegate e s = throw TypeError s \<and>
      (orPlaceholder e s (lhsRef s) (lhsAddr s) = None \<or> orPlaceholder e s (rhsRef s) (rhsAddr s) = None)) \<or>
   (\<exists>l r. orPlaceholder e s (lhsRef s) (lhsAddr s) = Some l \<and>
      orPlaceholder e s (rhsRef s) (rhsAddr s) = Some r \<and>
      trace (delegate e s) = trace s @
        [Invoke (ExecuteDiff l r (titleVar s) (map_option (optsAt s) (showOptions (argsAt s (args s))))),
         Settle (ExecuteDiff l r (titleVar s) (map_option (optsAt s) (showOptions (argsAt s (args s)))))] \<and>
      thrown (delegate e s) =
        (case executeCommand e l r (titleVar s) (map_option (optsAt s) (showOptions (argsAt s (args s)))) of
           Inl ex \<Rightarrow> Some ex | Inr _ \<Rightarrow> thrown s))"
  by (auto simp add: delegate_def Let_def setter_defs split: option.splits sum.splits)

lemma afterOptions_quiet [simp]:
  "delegations (trace (afterOptions e s)) = delegations (trace s)"
  "reports (trace (afterOptions e s)) = reports (trace s)"
  by simp_all

lemma tryBlock_reports [simp]: "reports (trace (tryBlock e s)) = reports (trace s)"
  by (simp add: tryBlock_def andThen_def Let_def)

lemma tryBlock_thrown:
  assumes "thrown s = None" and "thrown (tryBlock e s) = Some ex" and "delegations (trace s) = []"
  shows "delegations (trace (tryBlock e s)) = [] \<or>
     (\<exists>l r t so pre. trace (tryBlock e s) = pre @ [Invoke (ExecuteDiff l r t so), Settle (ExecuteDiff l r t so)] \<and>
        delegations pre = [] \<and> executeCommand e l r t so = Inl ex)"
proof (cases "thrown (afterOptions e s)")
  case (Some x)
  then have "tryBlock e s = afterOptions e s" by (simp add: tryBlock_def andThen_def Let_def)
  then show ?thesis using assms(3) by simp
next
  case None
  let ?d = "afterOptions e s"
  have tb: "tryBlock e s = delegate e ?d" using None by (simp add: tryBlock_def andThen_def Let_def)
  have q: "delegations (trace ?d) = []" using assms(3) by simp
  from delegate_cases [of e ?d] show ?thesis
  proof
    assume "delegate e ?d = throw TypeError ?d \<and>
      (orPlaceholder e ?d (lhsRef ?d) (lhsAddr ?d) = None \<or> orPlaceholder e ?d (rhsRef ?d) (rhsAddr ?d) = None)"
    then have "trace (delegate e ?d) = trace ?d" by (simp add: throw_def)
    then show ?thesis using q tb by simp
  next
    assume "\<exists>l r. orPlaceholder e ?d (lhsRef ?d) (lhsAddr ?d) = Some l \<and>
      orPlaceholder e ?d (rhsRef ?d) (rhsAddr ?d) = Some r \<and>
      trace (delegate e ?d) = trace ?d @
        [Invoke (ExecuteDiff l r (titleVar ?d) (map_option (optsAt ?d) (showOptions (argsAt ?d (args ?d))))),
         Settle (ExecuteDiff l r (titleVar ?d) (map_option (optsAt ?d) (showOptions (argsAt ?d (args ?d)))))] \<and>
      thrown (delegate e ?d) =
        (case executeCommand e l r (titleVar ?d) (map_option (optsAt ?d) (showOptions (argsAt ?d (args ?d)))) of
           Inl ex \<Rightarrow> Some ex | Inr _ \<Rightarrow> thrown ?d)"
    then obtain l r where lr:
      "trace (delegate e ?d) = trace ?d @
        [Invoke (ExecuteDiff l r (titleVar ?d) (map_option (optsAt ?d) (showOptions (argsAt ?d (args ?d))))),
         Settle (ExecuteDiff l r (titleVar ?d) (map_option (optsAt ?d) (showOptions (argsAt ?d (args ?d)))))]"
      "thrown (delegate e ?d) =
        (case executeCommand e l r (titleVar ?d) (map_option (optsAt ?d) (showOptions (argsAt ?d (args ?d)))) of
           Inl ex \<Rightarrow> Some ex | Inr _ \<Rightarrow> thrown ?d)"
      by blast
    have "executeCommand e l r (titleVar ?d) (map_option (optsAt ?d) (showOptions (argsAt ?d (args ?d)))) = Inl ex"
      using lr(2) assms(2) None tb by (simp split: sum.splits)
    then show ?thesis using lr(1) q tb by auto
  qed
qed


lemma enter_fresh: "thrown (enter st a) = None" "trace (enter st a) = []"
  by (simp_all add: enter_def Let_def)

lemma catchClause_thrown:
  "thrown s = Some ex \<Longrightarrow>
     catchClause s = (ReturnedErrorMessage,
       emit (ShowGenericErrorMessage ''Unable to open compare'')
         (emit (LoggerError ex ''DiffWithCommand'' ''getVersionedFile'') s))"
  by (simp add: catchClause_def)

lemma catchClause_returned:
  "thrown s = None \<Longrightarrow> catchClause s = (ReturnedDiffResult, s)"
  by (simp add: catchClause_def)

lemma guarded_request: "guarded (enter (request l r) (Some 0)) = Some (requestEntry l r)"
  by (simp add: guarded_def enter_def request_def requestEntry_def Let_def)

lemma guarded_distinct:
  assumes "guarded (enter st a) = Some s"
  shows "lhsAddr s \<noteq> rhsAddr s" "thrown s = None" "trace s = []"
proof -
  obtain n where n: "lhs (argsAt (enter st a) (args (enter st a))) = Some n"
      "rhs (argsAt (enter st a) (args (enter st a))) = Some (n + 1)"
    using enter_copies by blast
  show "lhsAddr s \<noteq> rhsAddr s" using guarded_frame [OF assms] n by simp
  show "thrown s = None" "trace s = []" using guarded_frame [OF assms] by (simp_all add: enter_fresh)
qed

text \<open>C7. When a step of the \<open>try\<close> block throws, \<open>execute\<close> returns what
  \<open>Messages.showGenericErrorMessage\<close> returns, the exception is logged with the context
  \<open>DiffWithCommand\<close>, \<open>getVersionedFile\<close> and the one message \<open>Unable to open compare\<close> is
  shown, these two reports are the last events of the run and its only reports, and the
  diff command has either not been called at all or its call is the step that threw (it
  was invoked once, it was rejected with the exception that is reported, and nothing was
  called after it).\<close>

theorem execute_catches_every_exception:
  assumes "thrown (snd (execute e st a)) = Some ex"
  shows "fst (execute e st a) = ReturnedErrorMessage \<and>
    reports (trace (snd (execute e st a))) =
      [LoggerError ex ''DiffWithCommand'' ''getVersionedFile'',
       ShowGenericErrorMessage ''Unable to open compare''] \<and>
    (\<exists>pre. trace (snd (execute e st a)) =
        pre @ [LoggerError ex ''DiffWithCommand'' ''getVersionedFile'',
               ShowGenericErrorMessage ''Unable to open compare''] \<and>
       (delegations pre = [] \<or>
        (\<exists>l r t so pre'. pre = pre' @ [Invoke (ExecuteDiff l r t so), Settle (ExecuteDiff l r t so)] \<and>
           delegations pre' = [] \<and> executeCommand e l r t so = Inl ex)))"
proof (cases "guarded (enter st a)")
  case None
  then have "snd (execute e st a) = enter st a" by (simp add: execute_def)
  then show ?thesis using assms by (simp add: enter_fresh)
next
  case (Some s)
  have s0: "thrown s = None" "trace s = []"
    using guarded_frame [OF Some] by (simp_all add: enter_fresh)
  have ex: "execute e st a = catchClause (tryBlock e s)"
    using Some by (simp add: execute_def)
  have th: "thrown (tryBlock e s) = Some ex"
    using assms by (simp add: ex)
  note cc = catchClause_thrown [OF th]
  have d0: "delegations (trace s) = []" by (simp add: s0 delegations_def)
  have "reports (trace (tryBlock e s)) = reports (trace s)" by simp
  then have r0: "reports (trace (tryBlock e s)) = []" by (simp add: s0 reports_def)
  have tr: "trace (snd (execute e st a)) =
      trace (tryBlock e s) @ [LoggerError ex ''DiffWithCommand'' ''getVersionedFile'',
               ShowGenericErrorMessage ''Unable to open compare'']"
    by (simp add: ex cc emit_def)
  have 1: "fst (execute e st a) = ReturnedErrorMessage" by (simp add: ex cc)
  have 2: "reports (trace (snd (execute e st a))) =
      [LoggerError ex ''DiffWithCommand'' ''getVersionedFile'',
       ShowGenericErrorMessage ''Unable to open compare'']"
    using r0 by (simp add: tr reports_def)
  from tryBlock_thrown [OF s0(1) th d0] tr 1 2 show ?thesis by blast
qed

theorem execute_catches_every_exception_witness:
  "thrown (snd (execute (gitDouble\<lparr>getFileStatusForCommit := \<lambda>rp p v. Inl (Rejected ''git'')\<rparr>)
      (request ''HEAD'' ''d00dfeed1234'') (Some 0))) = Some (Rejected ''git'') \<and>
   fst (execute (gitDouble\<lparr>getFileStatusForCommit := \<lambda>rp p v. Inl (Rejected ''git'')\<rparr>)
      (request ''HEAD'' ''d00dfeed1234'') (Some 0)) = ReturnedErrorMessage \<and>
   reports (trace (snd (execute (gitDouble\<lparr>getFileStatusForCommit := \<lambda>rp p v. Inl (Rejected ''git'')\<rparr>)
      (request ''HEAD'' ''d00dfeed1234'') (Some 0)))) =
     [LoggerError (Rejected ''git'') ''DiffWithCommand'' ''getVersionedFile'',
      ShowGenericErrorMessage ''Unable to open compare'']"
proof -
  have h: "thrown (snd (execute (gitDouble\<lparr>getFileStatusForCommit := \<lambda>rp p v. Inl (Rejected ''git'')\<rparr>)
      (request ''HEAD'' ''d00dfeed1234'') (Some 0))) = Some (Rejected ''git'')"
    by (simp add: run_defs double_defs Let_def)
  from execute_catches_every_exception [OF h] h show ?thesis by blast
qed

subsection \<open>The arguments of the diff command\<close>

lemma acquire_acquired: "thrown (acquire e s) = None \<Longrightarrow> acquired e (acquire e s)"
  by (auto simp add: acquire_def acquired_def Let_def setter_defs
      split: option.splits sum.splits if_splits)

lemma afterAcquire_acquired:
  assumes "thrown (afterAcquire e s) = None"
  shows "acquired e (afterAcquire e s)"
proof -
  from assms have 1: "afterAcquire e s = andThen (keepLhsSha e) (andThen (classifyRhs e) (acquire e)) (resolveBoth e s)"
    unfolding afterAcquire_def by (rule andThen_None [THEN conjunct2])
  from assms have 2: "andThen (keepLhsSha e) (andThen (classifyRhs e) (acquire e)) (resolveBoth e s)
     = andThen (classifyRhs e) (acquire e) (keepLhsSha e (resolveBoth e s))"
    unfolding 1 by (rule andThen_None [THEN conjunct2])
  from assms have 3: "andThen (classifyRhs e) (acquire e) (keepLhsSha e (resolveBoth e s))
     = acquire e (classifyRhs e (keepLhsSha e (resolveBoth e s)))"
    unfolding 1 2 by (rule andThen_None [THEN conjunct2])
  show ?thesis using assms unfolding 1 2 3 by (rule acquire_acquired)
qed

lemma later_acquired:
  "acquired e (afterOptions e s) = acquired e (afterAcquire e s)"
  by (simp add: acquired_def cong: option.case_cong)

lemma afterOptions_reached:
  assumes "thrown (afterOptions e s) = None"
  shows "thrown (afterTitle e s) = None" "thrown (afterSuffixes e s) = None" "thrown (afterAcquire e s) = None"
proof -
  show 1: "thrown (afterTitle e s) = None"
    using assms unfolding afterOptions_def by (rule andThen_None [THEN conjunct1])
  show 2: "thrown (afterSuffixes e s) = None"
    using 1 unfolding afterTitle_def by (rule andThen_None [THEN conjunct1])
  show "thrown (afterAcquire e s) = None"
    using 2 unfolding afterSuffixes_def by (rule andThen_None [THEN conjunct1])
qed

lemma delegation_in_trace:
  "Invoke (ExecuteDiff l r t so) \<in> set tr \<Longrightarrow> delegations tr \<noteq> []"
  by (force simp add: delegations_def filter_empty_conv)

lemma no_delegation:
  "delegations tr = [] \<Longrightarrow> Invoke (ExecuteDiff l r t so) \<notin> set tr"
  using delegation_in_trace by blast

lemma execute_trace:
  assumes "guarded (enter st a) = Some s"
  shows "trace (snd (execute e st a)) = trace (tryBlock e s) \<or>
     (\<exists>x. trace (snd (execute e st a)) = trace (tryBlock e s) @
        [LoggerError x ''DiffWithCommand'' ''getVersionedFile'',
         ShowGenericErrorMessage ''Unable to open compare''])"
  using assms by (cases "thrown (tryBlock e s)") (simp_all add: execute_def catchClause_def emit_def)

lemma execute_invokes:
  assumes "guarded (enter st a) = Some s"
  shows "Invoke c \<in> set (trace (snd (execute e st a))) \<longleftrightarrow> Invoke c \<in> set (trace (tryBlock e s))"
  using execute_trace [OF assms, of e] by auto

text \<open>C6. \<open>s\<close> is the state in which the \<open>try\<close> block is entered. When line 184 is
  reached without an exception, both sides have a \<open>uri\<close>, the two locals \<open>lhs\<close> and \<open>rhs\<close>
  are what \<open>getVersionedUri\<close> returned for the two sides, and the diff command is
  invoked, with these arguments and no others: for each side that content reference
  when it is defined, and otherwise the revision uri made from
  \<open>GitService.deletedOrMissingSha\<close>, the side's \<open>fsPath\<close> and the repository path; the local
  \<open>title\<close>; and \<open>args.showOptions\<close>. The command never receives an undefined reference.
  When line 184 is not reached, the diff command is not invoked.\<close>

theorem execute_delegates_two_references:
  assumes g: "guarded (enter st a) = Some s"
  shows "(thrown (afterOptions e s) = None \<longrightarrow>
      (\<exists>ul ur.
         uri (revAt (snd (execute e st a)) (lhsAddr (snd (execute e st a)))) = Some ul \<and>
         uri (revAt (snd (execute e st a)) (rhsAddr (snd (execute e st a)))) = Some ur \<and>
         getVersionedUri e (repo (snd (execute e st a))) (fsPath ul)
           (sha (revAt (snd (execute e st a)) (lhsAddr (snd (execute e st a))))) =
           Inr (lhsRef (snd (execute e st a))) \<and>
         getVersionedUri e (repo (snd (execute e st a))) (fsPath ur)
           (sha (revAt (snd (execute e st a)) (rhsAddr (snd (execute e st a))))) =
           Inr (rhsRef (snd (execute e st a))) \<and>
         (\<forall>l r t so.
            Invoke (ExecuteDiff l r t so) \<in> set (trace (snd (execute e st a))) \<longleftrightarrow>
              l = (case lhsRef (snd (execute e st a)) of
                     Some u \<Rightarrow> u
                   | None \<Rightarrow> toRevisionUri e (deletedOrMissingSha e) (fsPath ul)
                               (repo (snd (execute e st a)))) \<and>
              r = (case rhsRef (snd (execute e st a)) of
                     Some u \<Rightarrow> u
                   | None \<Rightarrow> toRevisionUri e (deletedOrMissingSha e) (fsPath ur)
                               (repo (snd (execute e st a)))) \<and>
              t = titleVar (snd (execute e st a)) \<and>
              so = map_option (optsAt (snd (execute e st a)))
                     (showOptions (argsAt (snd (execute e st a)) (args (snd (execute e st a)))))))) \<and>
    (thrown (afterOptions e s) \<noteq> None \<longrightarrow>
      (\<forall>l r t so. Invoke (ExecuteDiff l r t so) \<notin> set (trace (snd (execute e st a)))))"
proof -
  let ?f = "snd (execute e st a)"
  let ?d = "afterOptions e s"
  note s0 = guarded_distinct(2,3) [OF g]
  have "delegations (trace ?d) = delegations (trace s)" by simp
  then have q: "delegations (trace ?d) = []" by (simp add: s0 delegations_def)
  have fin: "revAt ?f = revAt ?d" "lhsAddr ?f = lhsAddr ?d" "rhsAddr ?f = rhsAddr ?d" "repo ?f = repo ?d"
    "lhsRef ?f = lhsRef ?d" "rhsRef ?f = rhsRef ?d" "titleVar ?f = titleVar ?d"
    "optsAt ?f = optsAt ?d" "argsAt ?f = argsAt ?d" "args ?f = args ?d"
    using g by (simp_all add: execute_def)
  have not_reached: "Invoke (ExecuteDiff l r t so) \<notin> set (trace ?f)"
    if "thrown ?d \<noteq> None" for l r t so
  proof -
    from that have "tryBlock e s = ?d" by (auto simp add: tryBlock_def andThen_def Let_def)
    then show ?thesis using no_delegation [OF q] by (simp add: execute_invokes [OF g])
  qed
  have reached: "\<exists>ul ur.
         uri (revAt ?f (lhsAddr ?f)) = Some ul \<and>
         uri (revAt ?f (rhsAddr ?f)) = Some ur \<and>
         getVersionedUri e (repo ?f) (fsPath ul) (sha (revAt ?f (lhsAddr ?f))) = Inr (lhsRef ?f) \<and>
         getVersionedUri e (repo ?f) (fsPath ur) (sha (revAt ?f (rhsAddr ?f))) = Inr (rhsRef ?f) \<and>
         (\<forall>l r t so.
            Invoke (ExecuteDiff l r t so) \<in> set (trace ?f) \<longleftrightarrow>
              l = (case lhsRef ?f of Some u \<Rightarrow> u
                   | None \<Rightarrow> toRevisionUri e (deletedOrMissingSha e) (fsPath ul) (repo ?f)) \<and>
              r = (case rhsRef ?f of Some u \<Rightarrow> u
                   | None \<Rightarrow> toRevisionUri e (deletedOrMissingSha e) (fsPath ur) (repo ?f)) \<and>
              t = titleVar ?f \<and>
              so = map_option (optsAt ?f) (showOptions (argsAt ?f (args ?f))))"
    if nd: "thrown ?d = None"
  proof -
    have tb: "tryBlock e s = delegate e ?d" using nd by (simp add: tryBlock_def andThen_def Let_def)
    have acq: "acquired e ?d"
      using afterAcquire_acquired [OF afterOptions_reached(3) [OF nd]] by (simp add: later_acquired)
    from acq obtain ul ur where u: "uri (revAt ?d (lhsAddr ?d)) = Some ul" "uri (revAt ?d (rhsAddr ?d)) = Some ur"
       "getVersionedUri e (repo ?d) (fsPath ul) (sha (revAt ?d (lhsAddr ?d))) = Inr (lhsRef ?d)"
       "getVersionedUri e (repo ?d) (fsPath ur) (sha (revAt ?d (rhsAddr ?d))) = Inr (rhsRef ?d)"
      unfolding acquired_def by (auto split: option.splits)
    let ?L = "case lhsRef ?d of Some u \<Rightarrow> u
              | None \<Rightarrow> toRevisionUri e (deletedOrMissingSha e) (fsPath ul) (repo ?d)"
    let ?R = "case rhsRef ?d of Some u \<Rightarrow> u
              | None \<Rightarrow> toRevisionUri e (deletedOrMissingSha e) (fsPath ur) (repo ?d)"
    let ?so = "map_option (optsAt ?d) (showOptions (argsAt ?d (args ?d)))"
    have ph: "orPlaceholder e ?d (lhsRef ?d) (lhsAddr ?d) = Some ?L"
      "orPlaceholder e ?d (rhsRef ?d) (rhsAddr ?d) = Some ?R"
      using u(1,2) by (simp_all add: orPlaceholder_def split: option.splits)
    have tr: "trace (delegate e ?d) = trace ?d @
        [Invoke (ExecuteDiff ?L ?R (titleVar ?d) ?so), Settle (ExecuteDiff ?L ?R (titleVar ?d) ?so)]"
      using delegate_cases [of e ?d] ph by auto
    have iff: "Invoke (ExecuteDiff l r t so) \<in> set (trace ?f) \<longleftrightarrow>
        l = ?L \<and> r = ?R \<and> t = titleVar ?d \<and> so = ?so" for l r t so
      using no_delegation [OF q, of l r t so]
      by (auto simp add: execute_invokes [OF g] tb tr)
    show ?thesis
      unfolding fin
      by (rule exI [of _ ul], rule exI [of _ ur], intro conjI allI) (fact u iff)+
  qed
  show ?thesis using reached not_reached by blast
qed

theorem execute_delegates_two_references_witness:
  "Invoke (ExecuteDiff
      (toRevisionUri gitDouble (deletedOrMissingSha gitDouble) ''/repo/a.ts'' ''/repo'')
      (toRevisionUri gitDouble (deletedOrMissingSha gitDouble) ''/repo/a.ts'' ''/repo'')
      (Some ''a.ts (deleted in a1b2c3d4)) <-> a.ts (deleted in )'')
      (Some \<lparr>viewColumn = Some (- 1), preserveFocus = None, preview = None, selection = None\<rparr>))
     \<in> set (trace (snd (execute (gitDouble\<lparr>getVersionedUri := \<lambda>rp p v. Inr None\<rparr>)
            (request ''HEAD'' []) (Some 0)))) \<and>
   Invoke (ExecuteDiff (revisionUri ''a1b2c3d4e5f6'' ''/repo/a.ts'') (fileUri ''/repo/a.ts'')
      (Some ''a.ts (a1b2c3d4) <-> a.ts'')
      (Some \<lparr>viewColumn = Some (- 1), preserveFocus = None, preview = None, selection = None\<rparr>))
     \<in> set (trace (snd (execute gitDouble (request ''HEAD'' []) (Some 0))))"
proof -
  let ?e = "(gitDouble\<lparr>getVersionedUri := \<lambda>rp p v. Inr None\<rparr>)"
  let ?o = "Some \<lparr>viewColumn = Some (- 1), preserveFocus = None, preview = None, selection = None\<rparr>"
  let ?f = "snd (execute ?e (request ''HEAD'' []) (Some 0))"
  let ?g = "snd (execute gitDouble (request ''HEAD'' []) (Some 0))"
  have hf: "thrown (afterOptions ?e (requestEntry ''HEAD'' [])) = None"
    by (simp add: run_defs double_defs Let_def)
  have hg: "thrown (afterOptions gitDouble (requestEntry ''HEAD'' [])) = None"
    by (simp add: run_defs double_defs Let_def)
  have ef: "uri (revAt ?f (lhsAddr ?f)) = Some (fileUri ''/repo/a.ts'')"
    "uri (revAt ?f (rhsAddr ?f)) = Some (fileUri ''/repo/a.ts'')"
    "lhsRef ?f = None" "rhsRef ?f = None" "repo ?f = ''/repo''"
    "titleVar ?f = Some ''a.ts (deleted in a1b2c3d4)) <-> a.ts (deleted in )''"
    "map_option (optsAt ?f) (showOptions (argsAt ?f (args ?f))) = ?o"
    by (simp_all add: run_defs double_defs Let_def)
  have eg: "lhsRef ?g = Some (revisionUri ''a1b2c3d4e5f6'' ''/repo/a.ts'')"
    "rhsRef ?g = Some (fileUri ''/repo/a.ts'')"
    "titleVar ?g = Some ''a.ts (a1b2c3d4) <-> a.ts''"
    "map_option (optsAt ?g) (showOptions (argsAt ?g (args ?g))) = ?o"
    by (simp_all add: run_defs double_defs Let_def)
  have pe: "toRevisionUri ?e = toRevisionUri gitDouble" "deletedOrMissingSha ?e = deletedOrMissingSha gitDouble"
    by simp_all
  have 1: "Invoke (ExecuteDiff
      (toRevisionUri gitDouble (deletedOrMissingSha gitDouble) ''/repo/a.ts'' ''/repo'')
      (toRevisionUri gitDouble (deletedOrMissingSha gitDouble) ''/repo/a.ts'' ''/repo'')
      (Some ''a.ts (deleted in a1b2c3d4)) <-> a.ts (deleted in )'') ?o) \<in> set (trace ?f)"
    using execute_delegates_two_references [OF guarded_request, of ?e, THEN conjunct1, THEN mp, OF hf]
    by (auto simp add: ef fileUri_def pe)
  have 2: "Invoke (ExecuteDiff (revisionUri ''a1b2c3d4e5f6'' ''/repo/a.ts'') (fileUri ''/repo/a.ts'')
      (Some ''a.ts (a1b2c3d4) <-> a.ts'') ?o) \<in> set (trace ?g)"
    using execute_delegates_two_references [OF guarded_request, of gitDouble, THEN conjunct1, THEN mp, OF hg]
    by (auto simp add: eg)
  from 1 2 show ?thesis by (rule conjI)
qed

subsection \<open>The suffixes\<close>

lemma resolveBoth_fulfilled:
  assumes "resolveReference e (repo s) (sha (revAt s (lhsAddr s))) (uri (revAt s (lhsAddr s))) = Inr vl"
    and "resolveReference e (repo s) (sha (revAt s (rhsAddr s))) (uri (revAt s (rhsAddr s))) = Inr vr"
  shows "thrown (resolveBoth e s) = thrown s"
    and "sha (revAt (resolveBoth e s) (rhsAddr s)) = vr"
    and "lhsAddr s \<noteq> rhsAddr s \<Longrightarrow> sha (revAt (resolveBoth e s) (lhsAddr s)) = vl"
    and "lhsSha (resolveBoth e s) = sha (revAt s (lhsAddr s))"
    and "rhsSha (resolveBoth e s) = sha (revAt s (rhsAddr s))"
  using assms by (simp_all add: resolveBoth_def Let_def setter_defs)

lemma keepLhsSha_revAt [simp]: "revAt (keepLhsSha e s) = revAt s" "thrown (keepLhsSha e s) = thrown s"
  by simp_all


lemma andThen_run: "thrown (f s) = None \<Longrightarrow> andThen f g s = g (f s)"
  by (simp add: andThen_def Let_def)

lemma acquire_fulfilled:
  assumes "uri (revAt s (lhsAddr s)) = Some ul" and "uri (revAt s (rhsAddr s)) = Some ur"
    and "getVersionedUri e (repo s) (fsPath ul) (sha (revAt s (lhsAddr s))) = Inr l"
    and "getVersionedUri e (repo s) (fsPath ur) (sha (revAt s (rhsAddr s))) = Inr r"
  shows "thrown (acquire e s) = thrown s" and "lhsRef (acquire e s) = l" and "rhsRef (acquire e s) = r"
  using assms by (simp_all add: acquire_def Let_def setter_defs)

lemma final_locals:
  assumes "guarded (enter st a) = Some s"
  shows "rhsSuffix (snd (execute e st a)) = rhsSuffix (afterSuffixes e s)"
    and "lhsSuffix (snd (execute e st a)) = lhsSuffix (afterSuffixes e s)"
    and "lhsRef (snd (execute e st a)) = lhsRef (afterAcquire e s)"
    and "rhsRef (snd (execute e st a)) = rhsRef (afterAcquire e s)"
    and "lhsSha (snd (execute e st a)) = lhsSha (afterAcquire e s)"
    and "rhsSha (snd (execute e st a)) = rhsSha (afterAcquire e s)"
    and "sha (revAt (snd (execute e st a)) p) = sha (revAt (afterAcquire e s) p)"
    and "lhsAddr (snd (execute e st a)) = lhsAddr s"
    and "rhsAddr (snd (execute e st a)) = rhsAddr s"
    and "repo (snd (execute e st a)) = repo s"
    and "titleVar (snd (execute e st a)) = titleVar (afterTitle e s)"
    and "revAt (snd (execute e st a)) = revAt (afterTitle e s)"
  using assms by (simp_all add: execute_def)

lemma suffixes_run:
  assumes "thrown (afterAcquire e s) = None"
  shows "afterSuffixes e s = deriveLhsSuffix e (deriveRhsSuffix e (afterAcquire e s))"
  using assms by (simp add: afterSuffixes_def andThen_run)



text \<open>C4, as the claim states it, fails: the left revision \<open>abc1234\<close> resolves to the
  missing revision, so the working revision \<open>lhsSha\<close> stays \<open>abc1234\<close> (line 109), there is
  no left content, and the right side is the working file, which exists. The left suffix
  is \<open>not in\<close> followed by nothing, and not by the shortened working revision
  \<open>abc1234\<close>.\<close>

theorem left_absent_right_working_present_counterexample:
  "lhsRef (snd (execute gitDouble (request ''abc1234'' []) (Some 0))) = None \<and>
   sha (revAt (snd (execute gitDouble (request ''abc1234'' []) (Some 0)))
        (rhsAddr (snd (execute gitDouble (request ''abc1234'' []) (Some 0))))) = Some [] \<and>
   rhsRef (snd (execute gitDouble (request ''abc1234'' []) (Some 0))) = Some (fileUri ''/repo/a.ts'') \<and>
   lhsSha (snd (execute gitDouble (request ''abc1234'' []) (Some 0))) = Some ''abc1234'' \<and>
   shortenSha gitDouble (Some ''abc1234'') None = Some ''abc1234'' \<and>
   lhsSuffix (snd (execute gitDouble (request ''abc1234'' []) (Some 0))) = ''not in '' \<and>
   lhsSuffix (snd (execute gitDouble (request ''abc1234'' []) (Some 0))) \<noteq>
     ''not in '' @
       orEmpty (shortenSha gitDouble (lhsSha (snd (execute gitDouble (request ''abc1234'' []) (Some 0)))) None)"
  by (simp add: run_defs double_defs Let_def)

text \<open>C4, amended. When the two content references have been acquired, the left one is
  undefined, the right revision is the empty string and the right content reference is
  defined: the left suffix is \<open>not in\<close> followed by the initial value of \<open>lhsSuffix\<close>, which
  is the shortened left working revision when the left revision is not the missing one
  and the empty string when it is; the right suffix, which line 146 had set to \<open>added in\<close>
  and the shortened right working revision, is the empty string.\<close>

theorem left_absent_right_working_present:
  assumes g: "guarded (enter st a) = Some s"
    and ta: "thrown (afterAcquire e s) = None"
    and l: "lhsRef (snd (execute e st a)) = None"
    and v: "sha (revAt (snd (execute e st a)) (rhsAddr (snd (execute e st a)))) = Some []"
    and r: "rhsRef (snd (execute e st a)) = Some rr"
  shows "lhsSuffix (snd (execute e st a)) =
      ''not in '' @
      (if sha (revAt (snd (execute e st a)) (lhsAddr (snd (execute e st a)))) \<noteq> Some (deletedOrMissingSha e)
       then orEmpty (shortenSha e (lhsSha (snd (execute e st a))) None) else []) \<and>
    rhsSuffix (snd (execute e st a)) = [] \<and>
    rhsSuffix (deriveRhsSuffix e (afterAcquire e s)) =
      ''added in '' @ orEmpty (shortenSha e (rhsSha (snd (execute e st a))) (Some ''Working Tree''))"
proof -
  note f = final_locals [OF g, of e]
  let ?A = "afterAcquire e s"
  have h: "lhsRef ?A = None" "sha (revAt ?A (rhsAddr s)) = Some []" "rhsRef ?A = Some rr"
    using l v r by (simp_all add: f)
  have 1: "rhsSuffix (deriveRhsSuffix e ?A) =
      ''added in '' @ orEmpty (shortenSha e (rhsSha ?A) (Some ''Working Tree''))"
    using h by (simp add: deriveRhsSuffix_def Let_def setter_defs)
  have 2: "lhsSuffix (deriveLhsSuffix e (deriveRhsSuffix e ?A)) = ''not in '' @ lhsBase e ?A"
    "rhsSuffix (deriveLhsSuffix e (deriveRhsSuffix e ?A)) = []"
    using h by (simp_all add: deriveLhsSuffix_def lhsBase_def Let_def setter_defs)
  show ?thesis using 1 2 by (simp add: f suffixes_run [OF ta] lhsBase_def)
qed

theorem left_absent_right_working_present_witness:
  "lhsSuffix (snd (execute (gitDouble\<lparr>getVersionedUri := \<lambda>rp p v. if v = Some [] then Inr (Some (fileUri p)) else Inr None\<rparr>) (request ''HEAD'' []) (Some 0))) = ''not in a1b2c3d4'' \<and>
   rhsSuffix (snd (execute (gitDouble\<lparr>getVersionedUri := \<lambda>rp p v. if v = Some [] then Inr (Some (fileUri p)) else Inr None\<rparr>) (request ''HEAD'' []) (Some 0))) = []"
proof -
  have h: "thrown (afterAcquire (gitDouble\<lparr>getVersionedUri := \<lambda>rp p v. if v = Some [] then Inr (Some (fileUri p)) else Inr None\<rparr>) (requestEntry ''HEAD'' [])) = None"
    "lhsRef (snd (execute (gitDouble\<lparr>getVersionedUri := \<lambda>rp p v. if v = Some [] then Inr (Some (fileUri p)) else Inr None\<rparr>) (request ''HEAD'' []) (Some 0))) = None"
    "sha (revAt (snd (execute (gitDouble\<lparr>getVersionedUri := \<lambda>rp p v. if v = Some [] then Inr (Some (fileUri p)) else Inr None\<rparr>) (request ''HEAD'' []) (Some 0)))
        (rhsAddr (snd (execute (gitDouble\<lparr>getVersionedUri := \<lambda>rp p v. if v = Some [] then Inr (Some (fileUri p)) else Inr None\<rparr>) (request ''HEAD'' []) (Some 0))))) = Some []"
    "rhsRef (snd (execute (gitDouble\<lparr>getVersionedUri := \<lambda>rp p v. if v = Some [] then Inr (Some (fileUri p)) else Inr None\<rparr>) (request ''HEAD'' []) (Some 0))) = Some (fileUri ''/repo/a.ts'')"
    by (simp_all add: run_defs double_defs Let_def)
  have more: "sha (revAt (snd (execute (gitDouble\<lparr>getVersionedUri := \<lambda>rp p v. if v = Some [] then Inr (Some (fileUri p)) else Inr None\<rparr>) (request ''HEAD'' []) (Some 0)))
        (lhsAddr (snd (execute (gitDouble\<lparr>getVersionedUri := \<lambda>rp p v. if v = Some [] then Inr (Some (fileUri p)) else Inr None\<rparr>) (request ''HEAD'' []) (Some 0))))) = Some ''a1b2c3d4e5f6''"
    "lhsSha (snd (execute (gitDouble\<lparr>getVersionedUri := \<lambda>rp p v. if v = Some [] then Inr (Some (fileUri p)) else Inr None\<rparr>) (request ''HEAD'' []) (Some 0))) = Some ''a1b2c3d4e5f6''"
    by (simp_all add: run_defs double_defs Let_def)
  from left_absent_right_working_present [OF guarded_request h] more
  show ?thesis by (simp add: double_defs orEmpty_def)
qed

text \<open>C5, as the claim states it, fails in the same way: the same request, run against a
  double for which no file has content. The left suffix is \<open>deleted in )\<close>, and not
  \<open>deleted in abc1234)\<close>.\<close>

theorem left_absent_right_working_absent_counterexample:
  "lhsRef (snd (execute (gitDouble\<lparr>getVersionedUri := \<lambda>rp p v. Inr None\<rparr>) (request ''abc1234'' []) (Some 0))) = None \<and>
   sha (revAt (snd (execute (gitDouble\<lparr>getVersionedUri := \<lambda>rp p v. Inr None\<rparr>) (request ''abc1234'' []) (Some 0)))
        (rhsAddr (snd (execute (gitDouble\<lparr>getVersionedUri := \<lambda>rp p v. Inr None\<rparr>) (request ''abc1234'' []) (Some 0))))) = Some [] \<and>
   rhsRef (snd (execute (gitDouble\<lparr>getVersionedUri := \<lambda>rp p v. Inr None\<rparr>) (request ''abc1234'' []) (Some 0))) = None \<and>
   lhsSha (snd (execute (gitDouble\<lparr>getVersionedUri := \<lambda>rp p v. Inr None\<rparr>) (request ''abc1234'' []) (Some 0))) = Some ''abc1234'' \<and>
   shortenSha (gitDouble\<lparr>getVersionedUri := \<lambda>rp p v. Inr None\<rparr>) (Some ''abc1234'') None = Some ''abc1234'' \<and>
   lhsSuffix (snd (execute (gitDouble\<lparr>getVersionedUri := \<lambda>rp p v. Inr None\<rparr>) (request ''abc1234'' []) (Some 0))) = ''deleted in )'' \<and>
   lhsSuffix (snd (execute (gitDouble\<lparr>getVersionedUri := \<lambda>rp p v. Inr None\<rparr>) (request ''abc1234'' []) (Some 0))) \<noteq>
     ''deleted in '' @
       orEmpty (shortenSha (gitDouble\<lparr>getVersionedUri := \<lambda>rp p v. Inr None\<rparr>) (lhsSha (snd (execute (gitDouble\<lparr>getVersionedUri := \<lambda>rp p v. Inr None\<rparr>) (request ''abc1234'' []) (Some 0)))) None) @ '')''"
  by (simp add: run_defs double_defs Let_def)

text \<open>C5, amended. When the two content references have been acquired, both are
  undefined and the right revision is the empty string: the left suffix is \<open>deleted in\<close>,
  the initial value of \<open>lhsSuffix\<close> (the shortened left working revision when the left
  revision is not the missing one, the empty string when it is) and a closing
  parenthesis that no opening one matches.\<close>

theorem left_absent_right_working_absent:
  assumes g: "guarded (enter st a) = Some s"
    and ta: "thrown (afterAcquire e s) = None"
    and l: "lhsRef (snd (execute e st a)) = None"
    and v: "sha (revAt (snd (execute e st a)) (rhsAddr (snd (execute e st a)))) = Some []"
    and r: "rhsRef (snd (execute e st a)) = None"
  shows "lhsSuffix (snd (execute e st a)) =
      ''deleted in '' @
      (if sha (revAt (snd (execute e st a)) (lhsAddr (snd (execute e st a)))) \<noteq> Some (deletedOrMissingSha e)
       then orEmpty (shortenSha e (lhsSha (snd (execute e st a))) None) else []) @ '')''"
proof -
  note f = final_locals [OF g, of e]
  let ?A = "afterAcquire e s"
  have h: "lhsRef ?A = None" "sha (revAt ?A (rhsAddr s)) = Some []" "rhsRef ?A = None"
    using l v r by (simp_all add: f)
  have 2: "lhsSuffix (deriveLhsSuffix e (deriveRhsSuffix e ?A)) = ''deleted in '' @ lhsBase e ?A @ '')''"
    using h by (simp_all add: deriveLhsSuffix_def lhsBase_def Let_def setter_defs)
  show ?thesis using 2 by (simp add: f suffixes_run [OF ta] lhsBase_def)
qed

theorem left_absent_right_working_absent_witness:
  "lhsSuffix (snd (execute (gitDouble\<lparr>getVersionedUri := \<lambda>rp p v. Inr None\<rparr>) (request ''HEAD'' []) (Some 0))) = ''deleted in a1b2c3d4)''"
proof -
  have h: "thrown (afterAcquire (gitDouble\<lparr>getVersionedUri := \<lambda>rp p v. Inr None\<rparr>) (requestEntry ''HEAD'' [])) = None"
    "lhsRef (snd (execute (gitDouble\<lparr>getVersionedUri := \<lambda>rp p v. Inr None\<rparr>) (request ''HEAD'' []) (Some 0))) = None"
    "sha (revAt (snd (execute (gitDouble\<lparr>getVersionedUri := \<lambda>rp p v. Inr None\<rparr>) (request ''HEAD'' []) (Some 0)))
        (rhsAddr (snd (execute (gitDouble\<lparr>getVersionedUri := \<lambda>rp p v. Inr None\<rparr>) (request ''HEAD'' []) (Some 0))))) = Some []"
    "rhsRef (snd (execute (gitDouble\<lparr>getVersionedUri := \<lambda>rp p v. Inr None\<rparr>) (request ''HEAD'' []) (Some 0))) = None"
    by (simp_all add: run_defs double_defs Let_def)
  have more: "sha (revAt (snd (execute (gitDouble\<lparr>getVersionedUri := \<lambda>rp p v. Inr None\<rparr>) (request ''HEAD'' []) (Some 0)))
        (lhsAddr (snd (execute (gitDouble\<lparr>getVersionedUri := \<lambda>rp p v. Inr None\<rparr>) (request ''HEAD'' []) (Some 0))))) = Some ''a1b2c3d4e5f6''"
    "lhsSha (snd (execute (gitDouble\<lparr>getVersionedUri := \<lambda>rp p v. Inr None\<rparr>) (request ''HEAD'' []) (Some 0))) = Some ''a1b2c3d4e5f6''"
    by (simp_all add: run_defs double_defs Let_def)
  from left_absent_right_working_absent [OF guarded_request h] more
  show ?thesis by (simp add: double_defs orEmpty_def)
qed

subsection \<open>The labels and the title\<close>

lemma titles_run:
  assumes ts: "thrown (afterSuffixes e s) = None"
    and d: "lhsAddr s \<noteq> rhsAddr s"
    and tl: "title (revAt s (lhsAddr s)) = None" and tr: "title (revAt s (rhsAddr s)) = None"
    and ul: "uri (revAt s (lhsAddr s)) = Some ul" and ur: "uri (revAt s (rhsAddr s)) = Some ur"
  shows "thrown (afterTitle e s) = None"
    and "title (revAt (afterTitle e s) (rhsAddr s)) =
           Some (label (basename e (fsPath ur)) (rhsSuffix (afterSuffixes e s)))"
    and "title (revAt (afterTitle e s) (lhsAddr s)) =
           (if lhsRef (afterSuffixes e s) = None \<and> lhsSuffix (afterSuffixes e s) = [] then None
            else Some (label (basename e (fsPath ul)) (lhsSuffix (afterSuffixes e s))))"
    and "titleVar (afterTitle e s) =
           (if lhsRef (afterSuffixes e s) = None \<and> lhsSuffix (afterSuffixes e s) = []
            then Some (label (basename e (fsPath ur)) (rhsSuffix (afterSuffixes e s)))
            else Some (label (basename e (fsPath ul)) (lhsSuffix (afterSuffixes e s)) @ '' '' @
                   ArrowLeftRightLong e @ '' '' @
                   label (basename e (fsPath ur)) (rhsSuffix (afterSuffixes e s))))"
proof -
  let ?t = "afterSuffixes e s"
  let ?l = "assignLhsTitle e ?t"
  let ?r = "assignRhsTitle e ?l"
  have t: "title (revAt ?t (lhsAddr ?t)) = None" "title (revAt ?t (rhsAddr ?t)) = None"
      "uri (revAt ?t (lhsAddr ?t)) = Some ul" "uri (revAt ?t (rhsAddr ?t)) = Some ur"
    using tl tr ul ur by simp_all
  have l: "thrown ?l = None"
      "title (revAt ?l (lhsAddr s)) =
         (if lhsRef ?t = None \<and> lhsSuffix ?t = [] then None
          else Some (label (basename e (fsPath ul)) (lhsSuffix ?t)))"
      "title (revAt ?l (rhsAddr s)) = None"
    using t ts d by (auto simp add: assignLhsTitle_def setter_defs)
  have lu: "uri (revAt ?l (rhsAddr ?l)) = Some ur" using ur by simp
  have r: "thrown ?r = None"
      "title (revAt ?r (rhsAddr s)) = Some (label (basename e (fsPath ur)) (rhsSuffix ?t))"
      "title (revAt ?r (lhsAddr s)) = title (revAt ?l (lhsAddr s))"
    using l(1,3) lu d by (auto simp add: assignRhsTitle_def setter_defs)
  have at: "afterTitle e s = combineTitle e ?r"
    using ts l(1) r(1) by (simp add: afterTitle_def andThen_run)
  show "thrown (afterTitle e s) = None" using r(1) by (simp add: at)
  show "title (revAt (afterTitle e s) (rhsAddr s)) =
           Some (label (basename e (fsPath ur)) (rhsSuffix ?t))"
    using r(2) by (simp add: at)
  show "title (revAt (afterTitle e s) (lhsAddr s)) =
           (if lhsRef ?t = None \<and> lhsSuffix ?t = [] then None
            else Some (label (basename e (fsPath ul)) (lhsSuffix ?t)))"
    using r(3) l(2) by (simp add: at)
  show "titleVar (afterTitle e s) =
           (if lhsRef ?t = None \<and> lhsSuffix ?t = []
            then Some (label (basename e (fsPath ur)) (rhsSuffix ?t))
            else Some (label (basename e (fsPath ul)) (lhsSuffix ?t) @ '' '' @
                   ArrowLeftRightLong e @ '' '' @
                   label (basename e (fsPath ur)) (rhsSuffix ?t)))"
    using r(2,3) l(2) unfolding at
    by (simp add: combineTitle_def setter_defs orElse_def label_def)
qed

lemma delegated_title:
  assumes g: "guarded (enter st a) = Some s"
    and inv: "Invoke (ExecuteDiff l r t so) \<in> set (trace (snd (execute e st a)))"
  shows "t = titleVar (snd (execute e st a))"
proof -
  let ?f = "snd (execute e st a)"
  let ?d = "afterOptions e s"
  note s0 = guarded_distinct(2,3) [OF g]
  have ex: "execute e st a = catchClause (tryBlock e s)"
    using g by (simp add: execute_def)
  have "trace ?f = trace (tryBlock e s) \<or> (\<exists>x. trace ?f = trace (tryBlock e s) @
      [LoggerError x ''DiffWithCommand'' ''getVersionedFile'', ShowGenericErrorMessage ''Unable to open compare''])"
    by (cases "thrown (tryBlock e s)") (simp_all add: ex catchClause_def emit_def)
  then have inv': "Invoke (ExecuteDiff l r t so) \<in> set (trace (tryBlock e s))"
    using inv by auto
  have "delegations (trace ?d) = delegations (trace s)" by simp
  then have q: "delegations (trace ?d) = []" by (simp add: s0 delegations_def)
  have nin: "Invoke (ExecuteDiff l r t so) \<notin> set (trace ?d)"
    using q delegation_in_trace by metis
  have nd: "thrown ?d = None"
  proof (rule ccontr)
    assume "thrown ?d \<noteq> None"
    then have "tryBlock e s = ?d" by (auto simp add: tryBlock_def andThen_def Let_def)
    then show False using inv' nin by simp
  qed
  have tb: "tryBlock e s = delegate e ?d" using nd by (simp add: tryBlock_def andThen_def Let_def)
  have "t = titleVar ?d"
    using delegate_cases [of e ?d] inv' nin unfolding tb by (auto simp add: throw_def)
  then show ?thesis by (simp add: ex)
qed

text \<open>C10. \<open>s\<close> is the state in which the \<open>try\<close> block is entered. When the two suffixes
  have been derived without an exception and neither side of the request has a \<open>title\<close>:
  the right \<open>title\<close> is assigned the basename of the right path followed by the right
  suffix in parentheses when it is not empty; the left \<open>title\<close> stays undefined exactly
  when the left content reference is undefined and the left suffix is empty, and is
  otherwise the basename of the left path with the left suffix; when the left \<open>title\<close> is
  undefined the local \<open>title\<close> is the right \<open>title\<close>; the local \<open>title\<close> is always defined,
  and it is the title that the diff command receives.\<close>

theorem labels_and_title:
  assumes g: "guarded (enter st a) = Some s"
    and ts: "thrown (afterSuffixes e s) = None"
    and tl: "title (revAt s (lhsAddr s)) = None" and tr: "title (revAt s (rhsAddr s)) = None"
  shows "\<exists>ul ur.
     uri (revAt s (lhsAddr s)) = Some ul \<and> uri (revAt s (rhsAddr s)) = Some ur \<and>
     title (revAt (snd (execute e st a)) (rhsAddr s)) =
       Some (label (basename e (fsPath ur)) (rhsSuffix (snd (execute e st a)))) \<and>
     (title (revAt (snd (execute e st a)) (lhsAddr s)) = None \<longleftrightarrow>
        lhsRef (snd (execute e st a)) = None \<and> lhsSuffix (snd (execute e st a)) = []) \<and>
     (title (revAt (snd (execute e st a)) (lhsAddr s)) \<noteq> None \<longrightarrow>
        title (revAt (snd (execute e st a)) (lhsAddr s)) =
          Some (label (basename e (fsPath ul)) (lhsSuffix (snd (execute e st a))))) \<and>
     (title (revAt (snd (execute e st a)) (lhsAddr s)) = None \<longrightarrow>
        titleVar (snd (execute e st a)) = title (revAt (snd (execute e st a)) (rhsAddr s))) \<and>
     titleVar (snd (execute e st a)) \<noteq> None \<and>
     (\<forall>l r t so. Invoke (ExecuteDiff l r t so) \<in> set (trace (snd (execute e st a))) \<longrightarrow>
        t = titleVar (snd (execute e st a)) \<and> t \<noteq> None)"
proof -
  note d = guarded_distinct [OF g]
  note f = final_locals [OF g, of e]
  have ta: "thrown (afterAcquire e s) = None"
    using ts unfolding afterSuffixes_def by (rule andThen_None [THEN conjunct1])
  from afterAcquire_acquired [OF ta] obtain ul ur where
    u: "uri (revAt s (lhsAddr s)) = Some ul" "uri (revAt s (rhsAddr s)) = Some ur"
    unfolding acquired_def by (auto split: option.splits)
  note t = titles_run [OF ts d(1) tl tr u]
  have sf: "lhsRef (afterSuffixes e s) = lhsRef (afterAcquire e s)" by simp
  have 1: "title (revAt (snd (execute e st a)) (rhsAddr s)) =
       Some (label (basename e (fsPath ur)) (rhsSuffix (snd (execute e st a))))"
    using t(2) by (simp add: f)
  have 2: "title (revAt (snd (execute e st a)) (lhsAddr s)) =
       (if lhsRef (snd (execute e st a)) = None \<and> lhsSuffix (snd (execute e st a)) = [] then None
        else Some (label (basename e (fsPath ul)) (lhsSuffix (snd (execute e st a)))))"
    using t(3) by (simp add: f)
  have 3: "titleVar (snd (execute e st a)) =
       (if lhsRef (snd (execute e st a)) = None \<and> lhsSuffix (snd (execute e st a)) = []
        then title (revAt (snd (execute e st a)) (rhsAddr s))
        else Some (label (basename e (fsPath ul)) (lhsSuffix (snd (execute e st a))) @ '' '' @
               ArrowLeftRightLong e @ '' '' @
               label (basename e (fsPath ur)) (rhsSuffix (snd (execute e st a)))))"
    using t(4) 1 by (simp add: f)
  have 4: "titleVar (snd (execute e st a)) \<noteq> None"
    using 3 1 by (simp split: if_splits)
  have 5: "\<forall>l r t so. Invoke (ExecuteDiff l r t so) \<in> set (trace (snd (execute e st a))) \<longrightarrow>
        t = titleVar (snd (execute e st a)) \<and> t \<noteq> None"
    using delegated_title [OF g] 4 by blast
  have 6: "title (revAt (snd (execute e st a)) (lhsAddr s)) = None \<longleftrightarrow>
        lhsRef (snd (execute e st a)) = None \<and> lhsSuffix (snd (execute e st a)) = []"
    using 2 by (simp split: if_splits)
  have 7: "title (revAt (snd (execute e st a)) (lhsAddr s)) \<noteq> None \<longrightarrow>
        title (revAt (snd (execute e st a)) (lhsAddr s)) =
          Some (label (basename e (fsPath ul)) (lhsSuffix (snd (execute e st a))))"
    using 2 by (simp split: if_splits)
  have 8: "title (revAt (snd (execute e st a)) (lhsAddr s)) = None \<longrightarrow>
        titleVar (snd (execute e st a)) = title (revAt (snd (execute e st a)) (rhsAddr s))"
    using 3 6 by simp
  show ?thesis
    by (rule exI [of _ ul], rule exI [of _ ur], intro conjI) (fact u 1 6 7 8 4 5)+
qed

theorem labels_and_title_witness:
  "title (revAt (snd (execute gitDouble (request missingSha ''a1b2c3d4e5f6'') (Some 0))) 3) = None \<and>
   title (revAt (snd (execute gitDouble (request missingSha ''a1b2c3d4e5f6'') (Some 0))) 4) =
     Some ''a.ts (added in a1b2c3d4)'' \<and>
   titleVar (snd (execute gitDouble (request missingSha ''a1b2c3d4e5f6'') (Some 0))) =
     title (revAt (snd (execute gitDouble (request missingSha ''a1b2c3d4e5f6'') (Some 0))) 4)"
proof -
  let ?s = "requestEntry missingSha ''a1b2c3d4e5f6''"
  have h: "thrown (afterSuffixes gitDouble ?s) = None"
    "title (revAt ?s (lhsAddr ?s)) = None" "title (revAt ?s (rhsAddr ?s)) = None"
    by (simp_all add: run_defs double_defs Let_def)
  have a: "lhsAddr ?s = 3" "rhsAddr ?s = 4"
    by (simp_all add: requestEntry_def)
  have ev: "title (revAt (snd (execute gitDouble (request missingSha ''a1b2c3d4e5f6'') (Some 0))) 3) = None"
    "title (revAt (snd (execute gitDouble (request missingSha ''a1b2c3d4e5f6'') (Some 0))) 4) =
       Some ''a.ts (added in a1b2c3d4)''"
    by (simp_all add: run_defs double_defs Let_def)
  from labels_and_title [OF guarded_request h] ev show ?thesis
    unfolding a by auto
qed

end
